theory Spec2Isabelle
  imports Complex_Main
begin

text \<open>
  The colorbar library: the configuration and the rendering of the drag handle
  (editor/handle.ts), and the helpers of common.ts, which generate ids for SVG elements,
  keep one checker pattern per document, infer the kind of a scale and build the axis
  scale of a colour scale. The scales and the selections are the visualization
  toolkit's; they are modelled as far as the library uses them. Definitions come first,
  the properties after them.
\<close>

section \<open>The drag handle (editor/handle.ts): configuration properties\<close>

text \<open>
  \<open>colorHandle()\<close> returns a function object that closes over four variables:
  \<open>width = 10\<close>, \<open>height = 15\<close>, \<open>borderThickness = 1\<close> and
  \<open>color = constant\<close> (the identity). The closure's variables are the record below.
  Numbers are rationals: sizes are small pixel counts and halves of them.

  \<open>color\<close> is either an accessor \<open>(data: Datum) => string\<close> or, by the second
  overload of the setter, a plain string. A datum is \<open>'d option\<close>, \<open>None\<close> standing
  for JavaScript's \<open>null\<close>/\<open>undefined\<close>; an accessor may itself answer
  \<open>null\<close>, which is \<open>None\<close> again.
\<close>

datatype 'd color_spec =
    Accessor "'d option \<Rightarrow> string option"
  | Constant_color string

record 'd handle =
  width :: rat
  height :: rat
  borderThickness :: rat
  color :: "'d color_spec"



text \<open>
  Each property is one function, getter and setter at once:
  \<open>return arguments.length ? (height = _, colorHandle) : height\<close>.
  The argument list is an \<open>option\<close> (\<open>None\<close>: called with no argument). The setter
  returns the handle object itself, written \<open>This_handle\<close>; the getter returns the
  variable and changes nothing.
\<close>

datatype 'v prop_result = This_handle | Value 'v

definition colorHandle_color ::
  "'d color_spec option \<Rightarrow> 'd handle \<Rightarrow> 'd color_spec prop_result \<times> 'd handle" where
  "colorHandle_color arg ch =
     (case arg of Some v \<Rightarrow> (This_handle, ch\<lparr>color := v\<rparr>) | None \<Rightarrow> (Value (color ch), ch))"

definition colorHandle_height :: "rat option \<Rightarrow> 'd handle \<Rightarrow> rat prop_result \<times> 'd handle" where
  "colorHandle_height arg ch =
     (case arg of Some v \<Rightarrow> (This_handle, ch\<lparr>height := v\<rparr>) | None \<Rightarrow> (Value (height ch), ch))"

definition colorHandle_width :: "rat option \<Rightarrow> 'd handle \<Rightarrow> rat prop_result \<times> 'd handle" where
  "colorHandle_width arg ch =
     (case arg of Some v \<Rightarrow> (This_handle, ch\<lparr>width := v\<rparr>) | None \<Rightarrow> (Value (width ch), ch))"

definition colorHandle_borderThickness ::
  "rat option \<Rightarrow> 'd handle \<Rightarrow> rat prop_result \<times> 'd handle" where
  "colorHandle_borderThickness arg ch =
     (case arg of Some v \<Rightarrow> (This_handle, ch\<lparr>borderThickness := v\<rparr>)
      | None \<Rightarrow> (Value (borderThickness ch), ch))"

section \<open>Unique SVG ids (common.ts): \<open>svgIDs\<close> and \<open>generateSvgID\<close>\<close>

text \<open>
  \<open>const svgIDs = {}\<close> is a module-level object used as a table from prefix to counter.
  It is an ordinary object, so reading \<open>svgIDs[prefix]\<close> follows the prototype chain:
  a name that the table does not own is looked up on \<open>Object.prototype\<close>. The values
  a property read can give are therefore the numbers and strings the code stores, the
  built-in functions of \<open>Object.prototype\<close>, and, for the accessor \<open>__proto__\<close>,
  the prototype object itself. Counters are naturals: a JavaScript number counts exactly
  up to \<open>2^53\<close>, which no run reaches.
\<close>

datatype propval =
    PUndefined
  | PNum nat
  | PStr string
  | PNative string
  | PObjectPrototype

type_synonym own_props = "string \<rightharpoonup> propval"

text \<open>The data properties of \<open>Object.prototype\<close>, each a built-in function, with the
  function's own name.\<close>

definition object_prototype_functions :: "(string \<times> string) list" where
  "object_prototype_functions =
     [(''constructor'', ''Object''),
      (''hasOwnProperty'', ''hasOwnProperty''),
      (''isPrototypeOf'', ''isPrototypeOf''),
      (''propertyIsEnumerable'', ''propertyIsEnumerable''),
      (''toLocaleString'', ''toLocaleString''),
      (''toString'', ''toString''),
      (''valueOf'', ''valueOf''),
      (''__defineGetter__'', ''__defineGetter__''),
      (''__defineSetter__'', ''__defineSetter__''),
      (''__lookupGetter__'', ''__lookupGetter__''),
      (''__lookupSetter__'', ''__lookupSetter__'')]"

text \<open>\<open>obj[k]\<close>: the getter of \<open>__proto__\<close> answers the prototype; any other name is an
  own property, else an inherited one, else \<open>undefined\<close>.\<close>

definition get_prop :: "own_props \<Rightarrow> string \<Rightarrow> propval" where
  "get_prop obj k =
     (if k = ''__proto__'' then PObjectPrototype
      else case obj k of
        Some v \<Rightarrow> v
      | None \<Rightarrow> (case map_of object_prototype_functions k of
                   Some f \<Rightarrow> PNative f
                 | None \<Rightarrow> PUndefined))"

text \<open>\<open>obj[k] = v\<close> for a number or string \<open>v\<close>: the setter of \<open>__proto__\<close> ignores a
  value that is not an object; any other name becomes (or stays) an own property.\<close>

definition set_prop :: "own_props \<Rightarrow> string \<Rightarrow> propval \<Rightarrow> own_props" where
  "set_prop obj k v = (if k = ''__proto__'' then obj else obj(k \<mapsto> v))"

text \<open>Decimal digits of a counter, as the template literal prints it.\<close>

definition digit_char :: "nat \<Rightarrow> char" where
  "digit_char d = ''0123456789'' ! d"

fun number_to_string :: "nat \<Rightarrow> string" where
  "number_to_string n =
     (if n < 10 then [digit_char n] else number_to_string (n div 10) @ [digit_char (n mod 10)])"

declare number_to_string.simps [simp del]

definition native_source :: "string \<Rightarrow> string" where
  "native_source f = ''function '' @ f @ ''() { [native code] }''"

fun to_string :: "propval \<Rightarrow> string" where
  "to_string PUndefined = ''undefined''"
| "to_string (PNum n) = number_to_string n"
| "to_string (PStr s) = s"
| "to_string (PNative f) = native_source f"
| "to_string PObjectPrototype = ''[object Object]''"

text \<open>\<open>(v || 0) + 1\<close>: \<open>undefined\<close>, \<open>0\<close> and the empty string are falsy and give
  \<open>0 + 1\<close>; a number is incremented; for anything else \<open>+\<close> is string concatenation.\<close>

fun or_zero_plus_one :: "propval \<Rightarrow> propval" where
  "or_zero_plus_one PUndefined = PNum 1"
| "or_zero_plus_one (PNum n) = PNum (n + 1)"
| "or_zero_plus_one (PStr s) = (if s = [] then PNum 1 else PStr (s @ ''1''))"
| "or_zero_plus_one (PNative f) = PStr (native_source f @ ''1'')"
| "or_zero_plus_one PObjectPrototype = PStr (''[object Object]'' @ ''1'')"

text \<open>
  \<open>generateSvgID(prefix = '')\<close>: the argument is optional; the table is passed in and
  returned.
  \<^verbatim>\<open>svgIDs[prefix] = (svgIDs[prefix] || 0) + 1; return `${prefix}-${svgIDs[prefix]}`;\<close>
\<close>

definition generateSvgID :: "string option \<Rightarrow> own_props \<Rightarrow> string \<times> own_props" where
  "generateSvgID arg svgIDs =
     (let prefix = (case arg of None \<Rightarrow> [] | Some p \<Rightarrow> p);
          svgIDs' = set_prop svgIDs prefix (or_zero_plus_one (get_prop svgIDs prefix))
      in (prefix @ ''-'' @ to_string (get_prop svgIDs' prefix), svgIDs'))"

text \<open>The table after \<open>n\<close> calls with the same prefix.\<close>

fun generateSvgID_calls :: "nat \<Rightarrow> string \<Rightarrow> own_props \<Rightarrow> own_props" where
  "generateSvgID_calls 0 p svgIDs = svgIDs"
| "generateSvgID_calls (Suc n) p svgIDs =
     snd (generateSvgID (Some p) (generateSvgID_calls n p svgIDs))"

section \<open>Scales of the toolkit\<close>

text \<open>
  The values that pass through a scale: \<open>undefined\<close>, numbers (rationals, and
  \<open>NaN\<close>), strings and dates (milliseconds). \<open>Str\<close> holds a colour name or a category
  label, that is, a string that does not read as a number. \<open>Interpolated a b t\<close> is the
  value the toolkit's interpolator gives between two values that are not numbers
  (colours, dates), kept symbolic.
\<close>

datatype jsval =
    Undefined
  | NaN
  | Num rat
  | Str string
  | Date rat
  | Interpolated jsval jsval "rat option"

text \<open>Unary plus; \<open>None\<close> is \<open>NaN\<close>.\<close>

fun to_number :: "jsval \<Rightarrow> rat option" where
  "to_number (Num q) = Some q"
| "to_number (Date t) = Some t"
| "to_number _ = None"

fun number_val :: "rat option \<Rightarrow> jsval" where
  "number_val (Some q) = Num q"
| "number_val None = NaN"

text \<open>\<open>xs[i]\<close> reads \<open>undefined\<close> past the end.\<close>

definition nth_js :: "jsval list \<Rightarrow> nat \<Rightarrow> jsval" where
  "nth_js xs i = (if i < length xs then xs ! i else Undefined)"

fun str_less :: "string \<Rightarrow> string \<Rightarrow> bool" where
  "str_less [] [] = False"
| "str_less [] (y # ys) = True"
| "str_less (x # xs) [] = False"
| "str_less (x # xs) (y # ys) = ((of_char x :: nat) < of_char y \<or> (x = y \<and> str_less xs ys))"

text \<open>\<open>a < b\<close>: two strings compare by their characters, anything else as numbers,
  and a comparison with \<open>NaN\<close> is false.\<close>

fun js_less :: "jsval \<Rightarrow> jsval \<Rightarrow> bool" where
  "js_less (Str a) (Str b) = str_less a b"
| "js_less a b = (case (to_number a, to_number b) of (Some x, Some y) \<Rightarrow> x < y | _ \<Rightarrow> False)"

text \<open>
  A scale is an object with a domain and a range and the methods of
  \<open>ColorScaleBase\<close>; \<open>range\<close>, \<open>invert\<close> and \<open>copy\<close> are optional
  (\<open>ColorScaleOptionals\<close>). What a scale computes is the toolkit's business, so the
  behaviour is part of the object: \<open>apply_fn\<close> is the call \<open>scale(x)\<close> and
  \<open>invert_fn\<close> the method \<open>invert\<close> (\<open>None\<close>: the scale has none), both as
  functions of the current domain and range; \<open>domain_setter\<close> and \<open>range_setter\<close>
  say what \<open>domain(xs)\<close> and \<open>range(xs)\<close> store (a linear scale stores numbers, a
  band scale distinct values).
\<close>

record scale =
  scale_domain :: "jsval list"
  scale_range :: "jsval list"
  has_range :: bool
  has_copy :: bool
  apply_fn :: "jsval list \<Rightarrow> jsval list \<Rightarrow> jsval \<Rightarrow> jsval"
  invert_fn :: "(jsval list \<Rightarrow> jsval list \<Rightarrow> jsval \<Rightarrow> jsval) option"
  domain_setter :: "jsval list \<Rightarrow> jsval list"
  range_setter :: "jsval list \<Rightarrow> jsval list"

subsection \<open>The linear scale, \<open>scaleLinear()\<close>\<close>

text \<open>
  The toolkit's continuous scale, as the code uses it (no clamping, no rounding):
  \<^verbatim>\<open>
  function normalize(a, b) {
    return (b -= (a = +a)) ? function(x) { return (x - a) / b; }
                           : constant(isNaN(b) ? NaN : 0.5); }
  function bimap(domain, range, interpolate) {
    var d0 = domain[0], d1 = domain[1], r0 = range[0], r1 = range[1];
    if (d1 < d0) d0 = normalize(d1, d0), r0 = interpolate(r1, r0);
    else d0 = normalize(d0, d1), r0 = interpolate(r0, r1);
    return function(x) { return r0(d0(x)); }; }
  function polymap(domain, range, interpolate) {
    var j = Math.min(domain.length, range.length) - 1, d = new Array(j), r = new Array(j), i = -1;
    if (domain[j] < domain[0]) { domain = domain.slice().reverse(); range = range.slice().reverse(); }
    while (++i < j) { d[i] = normalize(domain[i], domain[i + 1]); r[i] = interpolate(range[i], range[i + 1]); }
    return function(x) { var i = bisect(domain, x, 1, j) - 1; return r[i](d[i](x)); }; }
  \<close>
\<close>

definition normalise :: "jsval \<Rightarrow> jsval \<Rightarrow> rat option \<Rightarrow> rat option" where
  "normalise a b x =
     (case (to_number a, to_number b) of
        (Some a', Some b') \<Rightarrow>
          if b' - a' \<noteq> 0 then map_option (\<lambda>x'. (x' - a') / (b' - a')) x else Some (1 / 2)
      | _ \<Rightarrow> None)"

text \<open>\<open>interpolateNumber(a, b)\<close> is \<open>t => a * (1 - t) + b * t\<close> on \<open>+a\<close> and \<open>+b\<close>.\<close>

definition interpolate_number :: "jsval \<Rightarrow> jsval \<Rightarrow> rat option \<Rightarrow> jsval" where
  "interpolate_number a b t =
     number_val (case (to_number a, to_number b, t) of
        (Some a', Some b', Some t') \<Rightarrow> Some (a' * (1 - t') + b' * t')
      | _ \<Rightarrow> None)"

text \<open>The default interpolator picks by the end value \<open>b\<close>: a constant for
  \<open>undefined\<close>, the number interpolator for a number.\<close>

fun interpolate_value :: "jsval \<Rightarrow> jsval \<Rightarrow> rat option \<Rightarrow> jsval" where
  "interpolate_value a Undefined t = Undefined"
| "interpolate_value a (Num q) t = interpolate_number a (Num q) t"
| "interpolate_value a NaN t = interpolate_number a NaN t"
| "interpolate_value a b t = Interpolated a b t"

text \<open>\<open>bisectRight(a, x, lo, hi)\<close>: binary search,
  \<^verbatim>\<open>while (lo < hi) { var mid = lo + hi >>> 1;
                    if (ascending(a[mid], x) > 0) hi = mid; else lo = mid + 1; } return lo;\<close>\<close>

function bisect_right :: "jsval list \<Rightarrow> rat option \<Rightarrow> nat \<Rightarrow> nat \<Rightarrow> nat" where
  "bisect_right a x lo hi =
     (if lo < hi then
        (let mid = (lo + hi) div 2 in
           if js_less (number_val x) (nth_js a mid) then bisect_right a x lo mid
           else bisect_right a x (mid + 1) hi)
      else lo)"
  by pat_completeness auto
termination
  by (relation "measure (\<lambda>(a, x, lo, hi). hi - lo)") auto

declare bisect_right.simps [simp del]

definition bimap ::
  "jsval list \<Rightarrow> jsval list \<Rightarrow> (jsval \<Rightarrow> jsval \<Rightarrow> rat option \<Rightarrow> jsval) \<Rightarrow> rat option \<Rightarrow> jsval" where
  "bimap ds rs interpolate x =
     (let d0 = nth_js ds 0; d1 = nth_js ds 1; r0 = nth_js rs 0; r1 = nth_js rs 1
      in if js_less d1 d0 then interpolate r1 r0 (normalise d1 d0 x)
         else interpolate r0 r1 (normalise d0 d1 x))"

definition polymap ::
  "jsval list \<Rightarrow> jsval list \<Rightarrow> (jsval \<Rightarrow> jsval \<Rightarrow> rat option \<Rightarrow> jsval) \<Rightarrow> rat option \<Rightarrow> jsval" where
  "polymap ds rs interpolate x =
     (let j = min (length ds) (length rs) - 1;
          reversed = js_less (nth_js ds j) (nth_js ds 0);
          ds' = (if reversed then rev ds else ds);
          rs' = (if reversed then rev rs else rs);
          i = bisect_right ds' x 1 j - 1
      in interpolate (nth_js rs' i) (nth_js rs' (i + 1))
           (normalise (nth_js ds' i) (nth_js ds' (i + 1)) x))"

definition piecewise ::
  "jsval list \<Rightarrow> jsval list \<Rightarrow> (jsval \<Rightarrow> jsval \<Rightarrow> rat option \<Rightarrow> jsval) \<Rightarrow> rat option \<Rightarrow> jsval" where
  "piecewise ds rs interpolate x =
     (if min (length ds) (length rs) > 2 then polymap ds rs interpolate x
      else bimap ds rs interpolate x)"

text \<open>\<open>scale(x)\<close> answers \<open>undefined\<close> (the unknown value) when \<open>+x\<close> is \<open>NaN\<close>;
  \<open>invert(y)\<close> runs the same piecewise map from range to domain with the number
  interpolator.\<close>

definition linear_apply :: "jsval list \<Rightarrow> jsval list \<Rightarrow> jsval \<Rightarrow> jsval" where
  "linear_apply ds rs x =
     (case to_number x of None \<Rightarrow> Undefined
      | Some q \<Rightarrow> piecewise ds rs interpolate_value (Some q))"

definition linear_invert :: "jsval list \<Rightarrow> jsval list \<Rightarrow> jsval \<Rightarrow> jsval" where
  "linear_invert ds rs y = piecewise rs ds interpolate_number (to_number y)"

definition scaleLinear :: scale where
  "scaleLinear =
     \<lparr> scale_domain = [Num 0, Num 1], scale_range = [Num 0, Num 1],
       has_range = True, has_copy = True,
       apply_fn = linear_apply, invert_fn = Some linear_invert,
       domain_setter = map (number_val \<circ> to_number), range_setter = (\<lambda>xs. xs) \<rparr>"

subsection \<open>The band scale, \<open>scaleBand()\<close>\<close>

text \<open>
  A band scale keeps one entry per distinct domain value, in the order of first
  occurrence, and a range of two numbers. With the default paddings (none) the bands
  divide the range evenly: \<open>step = (stop - start) / max(1, n)\<close>, value \<open>i\<close> of the
  domain starts at \<open>start + step * i\<close>, counted from the other end when the range
  descends. A value outside the domain gives \<open>undefined\<close>. It has no \<open>invert\<close>.
\<close>

definition band_domain :: "jsval list \<Rightarrow> jsval list" where
  "band_domain xs = foldl (\<lambda>acc d. if d \<in> set acc then acc else acc @ [d]) [] xs"

definition band_range :: "jsval list \<Rightarrow> jsval list" where
  "band_range xs = [number_val (to_number (nth_js xs 0)), number_val (to_number (nth_js xs 1))]"

fun index_of :: "jsval \<Rightarrow> jsval list \<Rightarrow> nat option" where
  "index_of d [] = None"
| "index_of d (x # xs) = (if x = d then Some 0 else map_option Suc (index_of d xs))"

definition band_apply :: "jsval list \<Rightarrow> jsval list \<Rightarrow> jsval \<Rightarrow> jsval" where
  "band_apply ds rs d =
     (case index_of d ds of
        None \<Rightarrow> Undefined
      | Some i \<Rightarrow>
          (case (to_number (nth_js rs 0), to_number (nth_js rs 1)) of
             (Some r0, Some r1) \<Rightarrow>
               (let n = length ds;
                    start = min r0 r1; stop = max r0 r1;
                    step = (stop - start) / of_nat (max 1 n)
                in Num (start + step * of_nat (if r1 < r0 then n - 1 - i else i)))
           | _ \<Rightarrow> NaN))"

definition scaleBand :: scale where
  "scaleBand =
     \<lparr> scale_domain = [], scale_range = [Num 0, Num 1],
       has_range = True, has_copy = True,
       apply_fn = band_apply, invert_fn = None,
       domain_setter = band_domain, range_setter = band_range \<rparr>"

subsection \<open>Two more scales of the toolkit, for examples\<close>

text \<open>
  An ordinal scale maps the \<open>i\<close>-th domain value to the \<open>i\<close>-th range value, cycling
  through the range, and a value outside the domain to the range value that the next
  free index selects. (It also appends that value to its own domain; every call made
  below is on a private copy whose domain is set anew before each use, so this is left
  out.) A sequential scale has a domain of two numbers and an interpolator but no
  range; with the default interpolator, the identity, it returns the normalised
  position.
\<close>

definition ordinal_apply :: "jsval list \<Rightarrow> jsval list \<Rightarrow> jsval \<Rightarrow> jsval" where
  "ordinal_apply ds rs d =
     (if rs = [] then Undefined
      else case index_of d ds of
             Some i \<Rightarrow> rs ! (i mod length rs)
           | None \<Rightarrow> rs ! (length ds mod length rs))"

definition scaleOrdinal :: scale where
  "scaleOrdinal =
     \<lparr> scale_domain = [], scale_range = [],
       has_range = True, has_copy = True,
       apply_fn = ordinal_apply, invert_fn = None,
       domain_setter = band_domain, range_setter = (\<lambda>xs. xs) \<rparr>"

definition sequential_apply :: "jsval list \<Rightarrow> jsval list \<Rightarrow> jsval \<Rightarrow> jsval" where
  "sequential_apply ds rs x =
     (case to_number x of None \<Rightarrow> Undefined
      | Some q \<Rightarrow> number_val (normalise (nth_js ds 0) (nth_js ds 1) (Some q)))"

definition scaleSequential :: scale where
  "scaleSequential =
     \<lparr> scale_domain = [Num 0, Num 1], scale_range = [],
       has_range = False, has_copy = True,
       apply_fn = sequential_apply, invert_fn = None,
       domain_setter = band_range, range_setter = (\<lambda>xs. xs) \<rparr>"

section \<open>Scale helpers of common.ts\<close>

text \<open>
  Scales are mutable objects: \<open>s.domain([1, 2])\<close> changes \<open>s\<close> and returns it, and
  \<open>scale.copy()\<close> makes a new object. The store holds the scale objects; a reference
  is an index into it, a new object goes to the end. Using something that is no object
  (a reference outside the store), or calling a method the object does not have, throws
  \<open>TypeError\<close>.
\<close>

type_synonym ref = nat
type_synonym store = "scale list"

datatype error = TypeError

definition alloc :: "scale \<Rightarrow> store \<Rightarrow> ref \<times> store" where
  "alloc sc st = (length st, st @ [sc])"

definition domain_set :: "ref \<Rightarrow> jsval list \<Rightarrow> store \<Rightarrow> store" where
  "domain_set r xs st = st[r := (st ! r)\<lparr>scale_domain := domain_setter (st ! r) xs\<rparr>]"

definition range_set :: "ref \<Rightarrow> jsval list \<Rightarrow> store \<Rightarrow> store" where
  "range_set r xs st = st[r := (st ! r)\<lparr>scale_range := range_setter (st ! r) xs\<rparr>]"

definition call :: "ref \<Rightarrow> jsval \<Rightarrow> store \<Rightarrow> jsval" where
  "call r x st = apply_fn (st ! r) (scale_domain (st ! r)) (scale_range (st ! r)) x"

definition invert :: "ref \<Rightarrow> jsval \<Rightarrow> store \<Rightarrow> error + jsval" where
  "invert r y st =
     (case invert_fn (st ! r) of
        None \<Rightarrow> Inl TypeError
      | Some f \<Rightarrow> Inr (f (scale_domain (st ! r)) (scale_range (st ! r)) y))"

text \<open>The probe of \<open>checkType\<close>, \<open>s.domain([1, 2]).range([1, 2])\<close>.\<close>

definition probe :: "ref \<Rightarrow> store \<Rightarrow> store" where
  "probe s st = range_set s [Num 1, Num 2] (domain_set s [Num 1, Num 2] st)"

text \<open>
  \<^verbatim>\<open>
  function checkType(scale: any) {
    if (scale.range === undefined) return 'sequential'
    const s = scale.copy();
    if (s.domain([1, 2]).range([1, 2])(1.5) === 1) return 'ordinal';
    else if (s.domain([1, 2]).range([1, 2]).invert(1.5) === 1.5) return 'linear';
    else if (s.domain([1, 2]).range([1, 2]).invert(1.5) instanceof Date) return 'time';
    else return 'not supported';
  }\<close>
\<close>

fun is_Date :: "jsval \<Rightarrow> bool" where
  "is_Date (Date t) = True"
| "is_Date _ = False"

definition checkType :: "ref \<Rightarrow> store \<Rightarrow> (error + string) \<times> store" where
  "checkType scale st =
     (if \<not> scale < length st then (Inl TypeError, st)
      else if \<not> has_range (st ! scale) then (Inr ''sequential'', st)
      else if \<not> has_copy (st ! scale) then (Inl TypeError, st)
      else
        (let (s, st0) = alloc (st ! scale) st;
             st1 = probe s st0
         in if call s (Num (3 / 2)) st1 = Num 1 then (Inr ''ordinal'', st1)
            else
              (let st2 = probe s st1
               in case invert s (Num (3 / 2)) st2 of
                    Inl e \<Rightarrow> (Inl e, st2)
                  | Inr v \<Rightarrow>
                      if v = Num (3 / 2) then (Inr ''linear'', st2)
                      else
                        (let st3 = probe s st2
                         in case invert s (Num (3 / 2)) st3 of
                              Inl e \<Rightarrow> (Inl e, st3)
                            | Inr v' \<Rightarrow>
                                if is_Date v' then (Inr ''time'', st3)
                                else (Inr ''not supported'', st3)))))"

definition scaleIsOrdinal :: "ref \<Rightarrow> store \<Rightarrow> (error + bool) \<times> store" where
  "scaleIsOrdinal candidate st =
     (case checkType candidate st of
        (Inl e, st') \<Rightarrow> (Inl e, st')
      | (Inr t, st') \<Rightarrow> (Inr (t = ''ordinal''), st'))"

text \<open>
  \<open>makeAxisScale(scale, extent)\<close>. The constructor \<open>ctor\<close> is \<open>scale.copy\<close> when the
  scale has \<open>range\<close> and \<open>invert\<close>, and otherwise makes a linear scale over the
  domain. \<open>transformer\<close> is one such scale from the first and last domain value to the
  extent; the result is another one whose range is the transformer's value at each
  domain value.
\<close>

definition ctor :: "ref \<Rightarrow> jsval list \<Rightarrow> store \<Rightarrow> (error + ref) \<times> store" where
  "ctor scale ds st =
     (if has_range (st ! scale) \<and> invert_fn (st ! scale) \<noteq> None then
        (if has_copy (st ! scale) then (let (c, st') = alloc (st ! scale) st in (Inr c, st'))
         else (Inl TypeError, st))
      else (let (l, st') = alloc scaleLinear st in (Inr l, domain_set l ds st')))"

definition makeAxisScale :: "ref \<Rightarrow> jsval list \<Rightarrow> store \<Rightarrow> (error + ref) \<times> store" where
  "makeAxisScale scale extent st =
     (if \<not> scale < length st then (Inl TypeError, st)
      else
        (let ds = scale_domain (st ! scale)
         in case scaleIsOrdinal scale st of
              (Inl e, st1) \<Rightarrow> (Inl e, st1)
            | (Inr True, st1) \<Rightarrow>
                (let (b, st2) = alloc scaleBand st1
                 in (Inr b, range_set b extent (domain_set b (scale_domain (st2 ! scale)) st2)))
            | (Inr False, st1) \<Rightarrow>
                (case ctor scale ds st1 of
                   (Inl e, st2) \<Rightarrow> (Inl e, st2)
                 | (Inr transformer, st2) \<Rightarrow>
                     (let st3 = range_set transformer extent
                                  (domain_set transformer
                                     [nth_js ds 0, nth_js ds (length ds - 1)] st2)
                      in case ctor scale ds st3 of
                           (Inl e, st4) \<Rightarrow> (Inl e, st4)
                         | (Inr r, st4) \<Rightarrow>
                             (Inr r,
                              range_set r (map (\<lambda>v. call transformer v st4) ds) st4)))))"





text \<open>The copy as the probe leaves it, and three scales used as examples: an ordinal
  scale of two colours, a linear colour scale over three domain values, and a linear
  scale whose domain is the single value 5.\<close>

definition probed :: "scale \<Rightarrow> scale" where
  "probed sc = sc\<lparr>scale_domain := domain_setter sc [Num 1, Num 2],
                  scale_range := range_setter sc [Num 1, Num 2]\<rparr>"

definition two_colours :: scale where
  "two_colours = scaleOrdinal\<lparr>scale_domain := [Str ''a'', Str ''b''],
                              scale_range := [Str ''red'', Str ''blue'']\<rparr>"

definition three_stops :: scale where
  "three_stops = scaleLinear\<lparr>scale_domain := [Num 0, Num (1 / 2), Num 2],
                             scale_range := [Str ''red'', Str ''white'', Str ''blue'']\<rparr>"


section \<open>The document and the selection toolkit\<close>

text \<open>
  An element has a tag, attributes in the order they were set, the datum that the
  toolkit binds to it (\<open>None\<close>: \<open>null\<close> or nothing bound) and its children in
  document order. \<open>setAttribute\<close> replaces the value of an attribute in place or adds
  the attribute at the end. \<open>selection.attr(name, value)\<close> removes the attribute when
  the value is \<open>null\<close> and sets it otherwise.
\<close>

datatype 'd element =
  Element (tag: string) (attrs: "(string \<times> string) list") (datum: "'d option")
    (children: "'d element list")

definition get_attr :: "string \<Rightarrow> 'd element \<Rightarrow> string option" where
  "get_attr name e = map_of (attrs e) name"

fun put :: "string \<Rightarrow> string \<Rightarrow> (string \<times> string) list \<Rightarrow> (string \<times> string) list" where
  "put name v [] = [(name, v)]"
| "put name v ((k, w) # kvs) = (if k = name then (k, v) # kvs else (k, w) # put name v kvs)"

definition set_attr :: "string \<Rightarrow> string \<Rightarrow> 'd element \<Rightarrow> 'd element" where
  "set_attr name v e = Element (tag e) (put name v (attrs e)) (datum e) (children e)"

definition remove_attr :: "string \<Rightarrow> 'd element \<Rightarrow> 'd element" where
  "remove_attr name e =
     Element (tag e) (filter (\<lambda>kv. fst kv \<noteq> name) (attrs e)) (datum e) (children e)"

definition attr :: "string \<Rightarrow> string option \<Rightarrow> 'd element \<Rightarrow> 'd element" where
  "attr name value e = (case value of None \<Rightarrow> remove_attr name e | Some v \<Rightarrow> set_attr name v e)"

definition set_datum :: "'d option \<Rightarrow> 'd element \<Rightarrow> 'd element" where
  "set_datum d e = Element (tag e) (attrs e) d (children e)"

definition set_children :: "'d element list \<Rightarrow> 'd element \<Rightarrow> 'd element" where
  "set_children cs e = Element (tag e) (attrs e) (datum e) cs"

text \<open>
  The selectors in use are a tag name, alone or with one class
  (\<open>defs\<close>, \<open>polygon.border\<close>, \<open>pattern.checkerPattern\<close>). An element has a class
  when it is one of the tokens of its \<open>class\<close> attribute, split at white space.
  \<open>selection.selectAll(sel)\<close> gives the descendants that match, in document order.
\<close>

definition is_space :: "char \<Rightarrow> bool" where
  "is_space c \<longleftrightarrow> c \<in> {CHR '' '', CHR 0x09, CHR 0x0A, CHR 0x0C, CHR 0x0D}"

fun tokens :: "string \<Rightarrow> string \<Rightarrow> string list" where
  "tokens cur [] = (if cur = [] then [] else [cur])"
| "tokens cur (c # cs) =
     (if is_space c then (if cur = [] then tokens [] cs else cur # tokens [] cs)
      else tokens (cur @ [c]) cs)"

definition class_list :: "'d element \<Rightarrow> string list" where
  "class_list e = (case get_attr ''class'' e of None \<Rightarrow> [] | Some v \<Rightarrow> tokens [] v)"

datatype selector = Selector string "string option"

fun matches :: "selector \<Rightarrow> 'd element \<Rightarrow> bool" where
  "matches (Selector t c) e =
     (tag e = t \<and> (case c of None \<Rightarrow> True | Some k \<Rightarrow> k \<in> set (class_list e)))"

fun descendants :: "'d element \<Rightarrow> 'd element list" where
  "descendants (Element t a d cs) = concat (map (\<lambda>c. c # descendants c) cs)"

definition matching :: "selector \<Rightarrow> 'd element list \<Rightarrow> 'd element list" where
  "matching sel cs = filter (matches sel) (concat (map (\<lambda>c. c # descendants c) cs))"

definition select_all :: "selector \<Rightarrow> 'd element \<Rightarrow> 'd element list" where
  "select_all sel e = matching sel (children e)"

text \<open>
  The data join of one datum, \<open>parent.selectAll(sel).data([d])\<close>. \<open>data\<close> joins by
  index: the first matching descendant is the update selection and gets the datum, all
  further matching descendants are the exit selection, and the enter selection holds
  one placeholder exactly when nothing matches; \<open>enter().append(tag)\<close> then adds the new
  element as the last child of the parent, with the datum.

  Both files write the join as
  \<^verbatim>\<open>
  let x = parent.selectAll(sel).data([d]);
  x = x.merge(x.enter().append(tag).attr(...));   // created when nothing matches
  x.exit().remove();                              // x is the merged selection here
  x.attr(...);                                    // set on the first match or the new element
  \<close>
  A merged selection has no exit selection, so \<open>x.exit()\<close> is empty and
  nothing is removed: the further matches stay in the document as they are.
  \<open>update_first\<close> walks a list of siblings in document order and applies the update to
  the first match; it answers \<open>None\<close> when nothing matches. The update and the creation
  may use a state, which is threaded through: \<open>ensureCheckerPattern\<close> draws a fresh id
  when it creates the pattern, and only then.
\<close>

fun update_first ::
  "selector \<Rightarrow> ('d element \<Rightarrow> 's \<Rightarrow> 'd element \<times> 's) \<Rightarrow> 'd element list \<Rightarrow> 's
   \<Rightarrow> ('d element list \<times> 's) option" where
  "update_first sel upd [] s = None"
| "update_first sel upd (Element t a d ks # cs) s =
     (if matches sel (Element t a d ks) then
        (let (c', s') = upd (Element t a d ks) s in Some (c' # cs, s'))
      else case update_first sel upd ks s of
             Some (ks', s') \<Rightarrow> Some (Element t a d ks' # cs, s')
           | None \<Rightarrow>
               (case update_first sel upd cs s of
                  Some (cs', s') \<Rightarrow> Some (Element t a d ks # cs', s')
                | None \<Rightarrow> None))"

definition merged_join ::
  "selector \<Rightarrow> 'd option \<Rightarrow> ('s \<Rightarrow> 'd element \<times> 's)
   \<Rightarrow> ('d element \<Rightarrow> 's \<Rightarrow> 'd element \<times> 's) \<Rightarrow> 'd element \<Rightarrow> 's \<Rightarrow> 'd element \<times> 's" where
  "merged_join sel d enter update parent s =
     (case update_first sel (\<lambda>e. update (set_datum d e)) (children parent) s of
        Some (cs, s') \<Rightarrow> (set_children cs parent, s')
      | None \<Rightarrow>
          (let (e, s1) = enter s;
               (e', s2) = update (set_datum d e) s1
           in (set_children (children parent @ [e']) parent, s2)))"

definition merged_join_pure ::
  "selector \<Rightarrow> 'd option \<Rightarrow> 'd element \<Rightarrow> ('d element \<Rightarrow> 'd element) \<Rightarrow> 'd element \<Rightarrow> 'd element" where
  "merged_join_pure sel d enter update parent =
     fst (merged_join sel d (Pair enter) (\<lambda>e. Pair (update e)) parent ())"

text \<open>
  One join removes its exit selection, because it asks for it before merging
  (\<open>ensureCheckerPattern\<close>):
  \<^verbatim>\<open>
  let patterns = defs.selectAll('pattern.checkerPattern').data([null]);
  patterns.exit().remove();
  \<close>
  Here every match but the first leaves the document. \<open>prune\<close> removes the matching
  descendants of an element; \<open>keep_first\<close> walks a list of siblings in document order,
  binds the datum to the first match (whose own matching descendants are removed, being
  later matches) and removes every later match; it answers \<open>None\<close> when nothing
  matches.
\<close>

fun prune :: "selector \<Rightarrow> 'd element \<Rightarrow> 'd element" where
  "prune sel (Element t a d cs) =
     Element t a d (map (prune sel) (filter (\<lambda>c. \<not> matches sel c) cs))"

definition prune_list :: "selector \<Rightarrow> 'd element list \<Rightarrow> 'd element list" where
  "prune_list sel cs = map (prune sel) (filter (\<lambda>c. \<not> matches sel c) cs)"

fun keep_first :: "selector \<Rightarrow> 'd option \<Rightarrow> 'd element list \<Rightarrow> 'd element list option" where
  "keep_first sel d [] = None"
| "keep_first sel d (Element t a d0 ks # cs) =
     (if matches sel (Element t a d0 ks) then
        Some (set_datum d (prune sel (Element t a d0 ks)) # prune_list sel cs)
      else case keep_first sel d ks of
             Some ks' \<Rightarrow> Some (Element t a d0 ks' # prune_list sel cs)
           | None \<Rightarrow>
               (case keep_first sel d cs of
                  Some cs' \<Rightarrow> Some (Element t a d0 ks # cs')
                | None \<Rightarrow> None))"

section \<open>The drag handle (editor/handle.ts): rendering\<close>

text \<open>
  The handle is called on a selection of containers and does the same for each; the
  model renders into one container. Numbers reach the document through template
  literals and \<open>attr\<close>, which print them; how a number prints is the parameter \<open>str\<close>.
  \<open>.attr('fill', color)\<close> calls an accessor with the datum of the element, and sets a
  plain string as it is. Four joins follow each other: the border, the pointer triangle,
  the checkered backdrop of the swatch and the swatch itself, which is bound to the
  container's datum (\<open>.data(d => [d])\<close>).
\<close>

definition attr_color :: "string \<Rightarrow> 'd color_spec \<Rightarrow> 'd element \<Rightarrow> 'd element" where
  "attr_color name c e =
     (case c of Accessor f \<Rightarrow> attr name (f (datum e)) e | Constant_color v \<Rightarrow> attr name (Some v) e)"













section \<open>The checker pattern (common.ts)\<close>

text \<open>
  \<open>ensureCheckerPattern(selection)\<close>, on one \<open>svg\<close> element. The join for \<open>defs\<close>
  is merged before its exit selection is asked for, so it binds the first \<open>defs\<close> of
  the document, or a new one, and removes nothing. Inside that \<open>defs\<close> the join for
  \<open>pattern.checkerPattern\<close> removes every match but the first, and creates a pattern
  when there is none: the new element takes a fresh id from
  \<open>generateSvgID('checkerPattern')\<close> and two \<open>path\<close> children. The result is the
  \<open>id\<close> attribute of the first pattern of the merged selection, which is the pattern
  that the \<open>defs\<close> of the join now holds (\<open>None\<close>: \<open>null\<close>), together with the
  document and the id table. \<open>the_pattern\<close> names the new element.
\<close>

definition new_checker_pattern :: "own_props \<Rightarrow> 'd element \<times> own_props" where
  "new_checker_pattern svgIDs =
     (let (id, svgIDs') = generateSvgID (Some ''checkerPattern'') svgIDs
      in (Element ''pattern''
            [(''id'', id), (''class'', ''checkerPattern''), (''viewBox'', ''0,0,10,10''),
             (''width'', ''10''), (''height'', ''10''), (''patternUnits'', ''userSpaceOnUse'')]
            None
            [Element ''path'' [(''d'', ''M0,0v10h10V0''), (''fill'', ''#555'')] None [],
             Element ''path'' [(''d'', ''M0,5h10V0h-5v10H0''), (''fill'', ''#fff'')] None []],
          svgIDs'))"

definition pattern_join :: "'d element \<Rightarrow> own_props \<Rightarrow> 'd element \<times> own_props" where
  "pattern_join defs svgIDs =
     (case keep_first (Selector ''pattern'' (Some ''checkerPattern'')) None (children defs) of
        Some cs \<Rightarrow> (set_children cs defs, svgIDs)
      | None \<Rightarrow>
          (let (pattern, svgIDs') = new_checker_pattern svgIDs
           in (set_children (children defs @ [pattern]) defs, svgIDs')))"

definition first_attr :: "string \<Rightarrow> 'd element list \<Rightarrow> string option" where
  "first_attr name sel = (case sel of [] \<Rightarrow> None | e # _ \<Rightarrow> get_attr name e)"

definition ensureCheckerPattern ::
  "'d element \<Rightarrow> own_props \<Rightarrow> string option \<times> 'd element \<times> own_props" where
  "ensureCheckerPattern selection svgIDs =
     (let (svg, svgIDs') =
            merged_join (Selector ''defs'' None) None (Pair (Element ''defs'' [] None []))
              pattern_join selection svgIDs;
          patterns = (case select_all (Selector ''defs'' None) svg of
                        [] \<Rightarrow> []
                      | defs # _ \<Rightarrow> select_all (Selector ''pattern'' (Some ''checkerPattern'')) defs)
      in (first_attr ''id'' patterns, svg, svgIDs'))"

definition the_pattern :: "own_props \<Rightarrow> 'd element" where
  "the_pattern svgIDs = fst (new_checker_pattern svgIDs)"

text \<open>An \<open>svg\<close> has no checker pattern yet when the \<open>defs\<close> that the join binds, the
  first of the document, holds none; an \<open>svg\<close> without \<open>defs\<close> has none.\<close>

definition no_checker_pattern :: "'d element \<Rightarrow> bool" where
  "no_checker_pattern svg =
     (case select_all (Selector ''defs'' None) svg of
        [] \<Rightarrow> True
      | defs # _ \<Rightarrow> select_all (Selector ''pattern'' (Some ''checkerPattern'')) defs = [])"


definition red_group :: "string element" where
  "red_group = Element ''g'' [(''class'', ''handle'')] (Some ''red'') []"



definition svg_with_gradient :: "unit element" where
  "svg_with_gradient =
     Element ''svg'' [] None
       [Element ''defs'' [(''id'', ''first'')] None [],
        Element ''g'' [(''class'', ''colorbar'')] None [],
        Element ''defs'' [(''id'', ''second'')] None
          [Element ''linearGradient'' [(''id'', ''gradient-1'')] None []]]"

section \<open>The test of the colorbar\<close>

text \<open>
  What the colorbar renderer has to produce is stated by its test. For the linear
  scale from red to blue and a bar length of 10 the test expects eleven gradient
  rects: in the vertical orientation (breadth 30) and in the horizontal one
  (breadth 8). A rect is recorded by its \<open>x\<close>, \<open>y\<close>, \<open>width\<close> and \<open>height\<close>
  attributes, in the order of the expected document.
\<close>

record rect =
  rect_x :: int
  rect_y :: int
  rect_width :: int
  rect_height :: int

definition expected_vertical :: "rect list" where
  "expected_vertical =
     \<lparr>rect_x = 0, rect_y = 10, rect_width = 30, rect_height = 1\<rparr>
     # map (\<lambda>y. \<lparr>rect_x = 0, rect_y = y, rect_width = 30, rect_height = 2\<rparr>)
         [9, 8, 7, 6, 5, 4, 3, 2, 1, 0]"

definition expected_horizontal :: "rect list" where
  "expected_horizontal =
     map (\<lambda>x. \<lparr>rect_x = x, rect_y = 0, rect_width = 2, rect_height = 8\<rparr>)
       [0, 1, 2, 3, 4, 5, 6, 7, 8, 9]
     @ [\<lparr>rect_x = 10, rect_y = 0, rect_width = 1, rect_height = 8\<rparr>]"

section \<open>Properties of the handle's configuration\<close>

text \<open>
  Claim C9. For each of the four properties \<open>color\<close>, \<open>width\<close>, \<open>height\<close> and
  \<open>borderThickness\<close>: a call with an argument returns the handle itself, a following
  call without argument returns exactly the value that was set, and the three other
  variables of the closure are as before.
\<close>

theorem colorHandle_properties_set_get:
  fixes ch :: "'d handle"
  shows
    "fst (colorHandle_color (Some c) ch) = This_handle
     \<and> fst (colorHandle_color None (snd (colorHandle_color (Some c) ch))) = Value c
     \<and> width (snd (colorHandle_color (Some c) ch)) = width ch
     \<and> height (snd (colorHandle_color (Some c) ch)) = height ch
     \<and> borderThickness (snd (colorHandle_color (Some c) ch)) = borderThickness ch
     \<and> fst (colorHandle_width (Some w) ch) = This_handle
     \<and> fst (colorHandle_width None (snd (colorHandle_width (Some w) ch))) = Value w
     \<and> color (snd (colorHandle_width (Some w) ch)) = color ch
     \<and> height (snd (colorHandle_width (Some w) ch)) = height ch
     \<and> borderThickness (snd (colorHandle_width (Some w) ch)) = borderThickness ch
     \<and> fst (colorHandle_height (Some h) ch) = This_handle
     \<and> fst (colorHandle_height None (snd (colorHandle_height (Some h) ch))) = Value h
     \<and> color (snd (colorHandle_height (Some h) ch)) = color ch
     \<and> width (snd (colorHandle_height (Some h) ch)) = width ch
     \<and> borderThickness (snd (colorHandle_height (Some h) ch)) = borderThickness ch
     \<and> fst (colorHandle_borderThickness (Some b) ch) = This_handle
     \<and> fst (colorHandle_borderThickness None (snd (colorHandle_borderThickness (Some b) ch)))
         = Value b
     \<and> color (snd (colorHandle_borderThickness (Some b) ch)) = color ch
     \<and> width (snd (colorHandle_borderThickness (Some b) ch)) = width ch
     \<and> height (snd (colorHandle_borderThickness (Some b) ch)) = height ch"
  by (simp add: colorHandle_color_def colorHandle_width_def colorHandle_height_def
      colorHandle_borderThickness_def)

section \<open>Properties of the id generator\<close>

subsection \<open>Decimal rendering is injective\<close>

lemma digit_char_inj: "a < 10 \<Longrightarrow> b < 10 \<Longrightarrow> digit_char a = digit_char b \<Longrightarrow> a = b"
proof -
  assume a: "a < 10" and b: "b < 10" and e: "digit_char a = digit_char b"
  have d: "distinct ''0123456789''" by simp
  have "length ''0123456789'' = 10" by simp
  with a b e d show "a = b"
    unfolding digit_char_def by (metis nth_eq_iff_index_eq)
qed

lemma number_to_string_not_Nil: "number_to_string n \<noteq> []"
  by (subst number_to_string.simps) simp

lemma number_to_string_inj: "number_to_string m = number_to_string n \<Longrightarrow> m = n"
proof (induction m arbitrary: n rule: number_to_string.induct)
  case (1 m)
  show ?case
  proof (cases "m < 10")
    case True
    then have m: "number_to_string m = [digit_char m]" by (subst number_to_string.simps) simp
    show ?thesis
    proof (cases "n < 10")
      case nl: True
      then have "number_to_string n = [digit_char n]" by (subst number_to_string.simps) simp
      with m "1.prems" True nl show ?thesis by (simp add: digit_char_inj)
    next
      case False
      then have "number_to_string n = number_to_string (n div 10) @ [digit_char (n mod 10)]"
        by (subst number_to_string.simps) simp
      with m "1.prems" show ?thesis by (simp add: number_to_string_not_Nil)
    qed
  next
    case False
    then have m: "number_to_string m = number_to_string (m div 10) @ [digit_char (m mod 10)]"
      by (subst number_to_string.simps) simp
    show ?thesis
    proof (cases "n < 10")
      case True
      then have "number_to_string n = [digit_char n]" by (subst number_to_string.simps) simp
      with m "1.prems" show ?thesis
        by (metis append_is_Nil_conv butlast.simps(2) butlast_snoc number_to_string_not_Nil)
    next
      case nf: False
      then have n: "number_to_string n = number_to_string (n div 10) @ [digit_char (n mod 10)]"
        by (subst number_to_string.simps) simp
      from m n "1.prems" have e1: "number_to_string (m div 10) = number_to_string (n div 10)"
        and e2: "digit_char (m mod 10) = digit_char (n mod 10)" by simp_all
      from "1.IH" [OF False e1] have "m div 10 = n div 10" .
      moreover from e2 have "m mod 10 = n mod 10" by (simp add: digit_char_inj)
      ultimately show ?thesis by (metis div_mult_mod_eq)
    qed
  qed
qed

subsection \<open>Reading and writing the table\<close>

lemma get_set_prop:
  "get_prop (set_prop t p v) p = (if p = ''__proto__'' then PObjectPrototype else v)"
  by (simp add: get_prop_def set_prop_def)

lemma to_string_or_zero_plus_one:
  "v \<noteq> PObjectPrototype \<Longrightarrow> v \<noteq> PUndefined \<Longrightarrow> v \<noteq> PStr [] \<Longrightarrow> (\<forall>f. v \<noteq> PNative f)
   \<Longrightarrow> to_string (or_zero_plus_one v) \<noteq> to_string v"
  by (cases v) (auto dest: number_to_string_inj)

lemma or_zero_plus_one_stored:
  "or_zero_plus_one v \<noteq> PObjectPrototype \<and> or_zero_plus_one v \<noteq> PUndefined
   \<and> or_zero_plus_one v \<noteq> PStr [] \<and> (\<forall>f. or_zero_plus_one v \<noteq> PNative f)"
  by (cases v) auto

text \<open>For a prefix that is no property name of \<open>Object.prototype\<close>, the entry of the
  table counts the calls, and call number \<open>n + 1\<close> returns the prefix, a dash and
  \<open>n + 1\<close>.\<close>

lemma generateSvgID_calls_entry:
  "p \<noteq> ''__proto__'' \<Longrightarrow> map_of object_prototype_functions p = None \<Longrightarrow>
   get_prop (generateSvgID_calls n p Map.empty) p = (if n = 0 then PUndefined else PNum n)"
proof (induction n)
  case 0
  then show ?case by (simp add: get_prop_def)
next
  case (Suc n)
  then show ?case by (simp add: generateSvgID_def Let_def get_set_prop)
qed

lemma generateSvgID_nth_call:
  "p \<noteq> ''__proto__'' \<Longrightarrow> map_of object_prototype_functions p = None \<Longrightarrow>
   fst (generateSvgID (Some p) (generateSvgID_calls n p Map.empty))
     = p @ ''-'' @ number_to_string (Suc n)"
  by (simp add: generateSvgID_def Let_def get_set_prop generateSvgID_calls_entry)

text \<open>
  Claim C4, at the prefix \<open>__proto__\<close>. Reading \<open>svgIDs['__proto__']\<close> gives
  \<open>Object.prototype\<close>, the assignment of a string to it is ignored, and the template
  literal prints the prototype: every call returns \<open>__proto__-[object Object]\<close> and
  leaves the table as it was, so two calls with this prefix return the same id.
\<close>

theorem generateSvgID_proto_repeats:
  "generateSvgID (Some ''__proto__'') svgIDs = (''__proto__-[object Object]'', svgIDs)"
  by (simp add: generateSvgID_def get_prop_def set_prop_def)

text \<open>
  Claim C5, as stated, fails: from the empty table, two calls with the equal prefix
  \<open>checkerPattern\<close> return two different ids.
\<close>

theorem generateSvgID_equal_prefix_counterexample:
  "fst (generateSvgID (Some ''checkerPattern'') Map.empty) = ''checkerPattern-1''
   \<and> fst (generateSvgID (Some ''checkerPattern'')
        (snd (generateSvgID (Some ''checkerPattern'') Map.empty))) = ''checkerPattern-2''
   \<and> fst (generateSvgID (Some ''checkerPattern'') Map.empty)
      \<noteq> fst (generateSvgID (Some ''checkerPattern'')
           (snd (generateSvgID (Some ''checkerPattern'') Map.empty)))"
  by (simp add: generateSvgID_def get_prop_def set_prop_def object_prototype_functions_def
      number_to_string.simps digit_char_def)

text \<open>
  Claim C5, amended. The library keeps one piece of persistent state, the table
  \<open>svgIDs\<close>. The id that \<open>generateSvgID\<close> returns depends on its prefix and on what
  the table gives for that prefix, and on nothing else: from two tables that agree at
  the prefix the same id is returned. The table does matter: for every prefix but
  \<open>__proto__\<close>, the call that follows a call with the same prefix returns another id.
\<close>

theorem generateSvgID_table_dependence:
  "(get_prop t1 p = get_prop t2 p
      \<longrightarrow> fst (generateSvgID (Some p) t1) = fst (generateSvgID (Some p) t2))
   \<and> (p \<noteq> ''__proto__''
      \<longrightarrow> fst (generateSvgID (Some p) (snd (generateSvgID (Some p) t)))
          \<noteq> fst (generateSvgID (Some p) t))"
  using to_string_or_zero_plus_one [of "or_zero_plus_one (get_prop t p)"]
    or_zero_plus_one_stored [of "get_prop t p"]
  by (simp add: generateSvgID_def Let_def get_set_prop)

text \<open>The amended claim at the prefix \<open>checkerPattern\<close>: the empty table and a table
  that holds a counter for another prefix agree at it.\<close>

theorem generateSvgID_table_dependence_witness:
  "(get_prop Map.empty ''checkerPattern''
      = get_prop (Map.empty(''other'' \<mapsto> PNum 7)) ''checkerPattern''
    \<and> fst (generateSvgID (Some ''checkerPattern'') Map.empty)
      = fst (generateSvgID (Some ''checkerPattern'') (Map.empty(''other'' \<mapsto> PNum 7))))
   \<and> (''checkerPattern'' \<noteq> ''__proto__''
    \<and> fst (generateSvgID (Some ''checkerPattern'')
          (snd (generateSvgID (Some ''checkerPattern'') Map.empty)))
      \<noteq> fst (generateSvgID (Some ''checkerPattern'') Map.empty))"
  using generateSvgID_table_dependence
    [of Map.empty "''checkerPattern''" "Map.empty(''other'' \<mapsto> PNum 7)" Map.empty]
  by (simp add: generateSvgID_def get_prop_def set_prop_def object_prototype_functions_def
      number_to_string.simps digit_char_def)

section \<open>Properties of the scale helpers\<close>

subsection \<open>The store\<close>

lemma length_domain_set [simp]: "length (domain_set r xs st) = length st"
  by (simp add: domain_set_def)

lemma length_range_set [simp]: "length (range_set r xs st) = length st"
  by (simp add: range_set_def)

lemma length_probe [simp]: "length (probe s st) = length st"
  by (simp add: probe_def)

lemma take_domain_set: "n \<le> r \<Longrightarrow> take n (domain_set r xs st) = take n st"
  by (simp add: domain_set_def)

lemma take_range_set: "n \<le> r \<Longrightarrow> take n (range_set r xs st) = take n st"
  by (simp add: range_set_def)

lemma probe_alloc: "probe (length st) (st @ [sc]) = st @ [probed sc]"
  by (simp add: probe_def domain_set_def range_set_def probed_def)

lemma probe_probed: "probed (probed sc) = probed sc"
  by (simp add: probed_def)

lemma checkType_store:
  "snd (checkType scale st) = st \<or> snd (checkType scale st) = st @ [probed (st ! scale)]"
  by (simp add: checkType_def alloc_def Let_def probe_alloc probe_probed split: sum.splits)

lemma checkType_frame: "take (length st) (snd (checkType scale st)) = st"
  using checkType_store [of scale st] by auto

lemma checkType_length: "length st \<le> length (snd (checkType scale st))"
  using checkType_store [of scale st] by auto

lemma scaleIsOrdinal_store: "snd (scaleIsOrdinal candidate st) = snd (checkType candidate st)"
  by (simp add: scaleIsOrdinal_def split: prod.splits sum.splits)

lemma ctor_frame: "take (length st) (snd (ctor scale ds st)) = st"
  by (simp add: ctor_def alloc_def Let_def take_domain_set)

lemma ctor_ref: "ctor scale ds st = (Inr r, st') \<Longrightarrow> r = length st \<and> length st' = Suc (length st)"
  by (auto simp: ctor_def alloc_def Let_def split: if_splits)

lemma ctor_length: "length st \<le> length (snd (ctor scale ds st))"
  by (simp add: ctor_def alloc_def Let_def)

lemma take_take_le: "n \<le> length st \<Longrightarrow> take (length st) st' = st \<Longrightarrow> take n st' = take n st"
  by (metis min.absorb1 take_take)

lemma makeAxisScale_frame: "take (length st) (snd (makeAxisScale scale extent st)) = st"
proof (cases "scale < length st")
  case False
  then show ?thesis by (simp add: makeAxisScale_def)
next
  case True
  obtain r1 st1 where o: "scaleIsOrdinal scale st = (r1, st1)" by (cases "scaleIsOrdinal scale st")
  then have st1: "st1 = snd (checkType scale st)" using scaleIsOrdinal_store [of scale st] by simp
  have f1: "take (length st) st1 = st" and l1: "length st \<le> length st1"
    using checkType_frame checkType_length st1 by auto
  show ?thesis
  proof (cases r1)
    case (Inl e)
    with True o f1 show ?thesis by (simp add: makeAxisScale_def Let_def)
  next
    case (Inr b)
    show ?thesis
    proof (cases b)
      case True
      with \<open>scale < length st\<close> o Inr f1 l1 show ?thesis
        by (simp add: makeAxisScale_def Let_def alloc_def take_range_set take_domain_set)
    next
      case False
      obtain c2 st2 where c2: "ctor scale (scale_domain (st ! scale)) st1 = (c2, st2)"
        by (cases "ctor scale (scale_domain (st ! scale)) st1")
      have f2: "take (length st1) st2 = st1" using ctor_frame [of st1 scale "scale_domain (st ! scale)"] c2 by simp
      have l2: "length st1 \<le> length st2" using ctor_length [of st1 scale "scale_domain (st ! scale)"] c2 by simp
      have f2': "take (length st) st2 = st" using f1 f2 l1 by (metis take_take_le)
      show ?thesis
      proof (cases c2)
        case (Inl e)
        with \<open>scale < length st\<close> o Inr False c2 f2' show ?thesis
          by (simp add: makeAxisScale_def Let_def)
      next
        case t: (Inr transformer)
        with c2 have tr: "transformer = length st1" using ctor_ref by blast
        let ?st3 = "range_set transformer extent (domain_set transformer
           [nth_js (scale_domain (st ! scale)) 0, nth_js (scale_domain (st ! scale)) (length (scale_domain (st ! scale)) - 1)] st2)"
        have f3: "take (length st) ?st3 = st" using f2' l1 tr
          by (simp add: take_range_set take_domain_set)
        have l3: "length st \<le> length ?st3" using l1 l2 by simp
        obtain c4 st4 where c4: "ctor scale (scale_domain (st ! scale)) ?st3 = (c4, st4)"
          by (cases "ctor scale (scale_domain (st ! scale)) ?st3")
        have f4: "take (length ?st3) st4 = ?st3" using ctor_frame [of ?st3 scale "scale_domain (st ! scale)"] c4 by simp
        have f4': "take (length st) st4 = st" using f3 f4 l3 by (metis take_take_le)
        show ?thesis
        proof (cases c4)
          case (Inl e)
          with \<open>scale < length st\<close> o Inr False c2 t c4 f4' show ?thesis
            by (simp add: makeAxisScale_def Let_def)
        next
          case r: (Inr r)
          with c4 have "r = length ?st3" using ctor_ref by blast
          then have "length st \<le> r" using l3 by simp
          with \<open>scale < length st\<close> o Inr False c2 t c4 r f4' show ?thesis
            by (simp add: makeAxisScale_def Let_def take_range_set)
        qed
      qed
    qed
  qed
qed

lemma band_domain_foldl:
  "distinct (acc @ xs) \<Longrightarrow> foldl (\<lambda>acc d. if d \<in> set acc then acc else acc @ [d]) acc xs = acc @ xs"
  by (induction xs arbitrary: acc) auto

lemma band_domain_distinct: "distinct xs \<Longrightarrow> band_domain xs = xs"
  using band_domain_foldl [of "[]" xs] by (simp add: band_domain_def)

lemma scaleIsOrdinal_valid: "fst (scaleIsOrdinal scale st) = Inr b \<Longrightarrow> scale < length st"
  by (auto simp: scaleIsOrdinal_def checkType_def split: prod.splits sum.splits if_splits)

text \<open>
  Claim C3. For a scale that \<open>scaleIsOrdinal\<close> classifies as ordinal, whose domain
  holds distinct values (as the domain of an ordinal scale does), and a pixel extent
  \<open>[p0, p1]\<close>, \<open>makeAxisScale\<close> returns a new band scale whose domain is the colour
  scale's domain and whose range is the extent.
\<close>

theorem makeAxisScale_ordinal:
  assumes ord: "fst (scaleIsOrdinal scale st) = Inr True"
    and dist: "distinct (scale_domain (st ! scale))"
  shows "\<exists>b st'. makeAxisScale scale [Num p0, Num p1] st = (Inr b, st')
           \<and> length st \<le> b \<and> b < length st'
           \<and> st' ! b = scaleBand\<lparr>scale_domain := scale_domain (st ! scale),
                                 scale_range := [Num p0, Num p1]\<rparr>"
proof -
  from ord have v: "scale < length st" by (rule scaleIsOrdinal_valid)
  obtain st1 where o: "scaleIsOrdinal scale st = (Inr True, st1)"
    using ord by (cases "scaleIsOrdinal scale st") simp
  then have st1: "st1 = snd (checkType scale st)" using scaleIsOrdinal_store [of scale st] by simp
  have f1: "take (length st) st1 = st" and l1: "length st \<le> length st1"
    using checkType_frame checkType_length st1 by auto
  from f1 v have same: "st1 ! scale = st ! scale" by (metis nth_take)
  from v l1 have v1: "scale < length st1" by simp
  have "makeAxisScale scale [Num p0, Num p1] st =
      (Inr (length st1), range_set (length st1) [Num p0, Num p1]
         (domain_set (length st1) (scale_domain (st ! scale)) (st1 @ [scaleBand])))"
    using v o same v1 by (simp add: makeAxisScale_def Let_def alloc_def nth_append)
  moreover have "range_set (length st1) [Num p0, Num p1]
         (domain_set (length st1) (scale_domain (st ! scale)) (st1 @ [scaleBand])) ! length st1
       = scaleBand\<lparr>scale_domain := scale_domain (st ! scale), scale_range := [Num p0, Num p1]\<rparr>"
    using dist
    by (simp add: range_set_def domain_set_def scaleBand_def band_domain_distinct band_range_def nth_js_def)
  ultimately show ?thesis using l1 by simp
qed

text \<open>The claim at the ordinal scale of two colours and the extent \<open>[0, 100]\<close>.\<close>

lemma two_colours_ordinal: "fst (scaleIsOrdinal 0 [two_colours]) = Inr True"
  by (simp add: scaleIsOrdinal_def checkType_def alloc_def probe_def domain_set_def range_set_def
      call_def two_colours_def scaleOrdinal_def band_domain_def ordinal_apply_def Let_def)

theorem makeAxisScale_ordinal_witness:
  "fst (scaleIsOrdinal 0 [two_colours]) = Inr True
   \<and> distinct (scale_domain ([two_colours] ! 0))
   \<and> (\<exists>b st'. makeAxisScale 0 [Num 0, Num 100] [two_colours] = (Inr b, st')
           \<and> length [two_colours] \<le> b \<and> b < length st'
           \<and> st' ! b = scaleBand\<lparr>scale_domain := scale_domain ([two_colours] ! 0),
                                 scale_range := [Num 0, Num 100]\<rparr>)"
proof -
  have d: "distinct (scale_domain ([two_colours] ! 0))"
    by (simp add: two_colours_def scaleOrdinal_def)
  from makeAxisScale_ordinal [OF two_colours_ordinal d, of 0 100] two_colours_ordinal d
  show ?thesis by blast
qed

text \<open>
  Claim C2, as stated, fails: a scale without a \<open>range\<close> method, such as a sequential
  scale, is classified \<open>sequential\<close>, which is none of ordinal, linear and time.
\<close>

theorem checkType_sequential_counterexample:
  "fst (checkType 0 [scaleSequential]) = Inr ''sequential''
   \<and> fst (checkType 0 [scaleSequential]) \<notin> {Inr ''ordinal'', Inr ''linear'', Inr ''time''}"
  by (simp add: checkType_def scaleSequential_def)

text \<open>
  Claim C2, amended. \<open>checkType\<close> gives one of five labels. A scale without a
  \<open>range\<close> method is \<open>sequential\<close>, without any probe. A scale with \<open>range\<close> and
  \<open>copy\<close> is probed on a copy whose domain and range are set to \<open>[1, 2]\<close>: it is
  \<open>ordinal\<close> when the copy maps 1.5 to 1; otherwise, when it has \<open>invert\<close>, it is
  \<open>linear\<close> when the copy's \<open>invert(1.5)\<close> is 1.5, else \<open>time\<close> when that is a
  date, else \<open>not supported\<close>.
\<close>

theorem checkType_labels:
  assumes "scale < length st"
  shows "(\<not> has_range (st ! scale) \<longrightarrow> fst (checkType scale st) = Inr ''sequential'')
       \<and> (has_range (st ! scale) \<and> has_copy (st ! scale) \<longrightarrow>
            (let ds = domain_setter (st ! scale) [Num 1, Num 2];
                 rs = range_setter (st ! scale) [Num 1, Num 2]
             in (apply_fn (st ! scale) ds rs (Num (3 / 2)) = Num 1
                   \<longrightarrow> fst (checkType scale st) = Inr ''ordinal'')
              \<and> (\<forall>f. apply_fn (st ! scale) ds rs (Num (3 / 2)) \<noteq> Num 1
                       \<and> invert_fn (st ! scale) = Some f
                   \<longrightarrow> fst (checkType scale st) =
                         Inr (if f ds rs (Num (3 / 2)) = Num (3 / 2) then ''linear''
                              else if is_Date (f ds rs (Num (3 / 2))) then ''time''
                              else ''not supported''))))"
  using assms
  by (simp add: checkType_def alloc_def Let_def probe_alloc probe_probed call_def invert_def
      probed_def split: option.splits)

text \<open>The claim at the linear colour scale with three stops, which is \<open>linear\<close>.\<close>

theorem checkType_labels_witness:
  "0 < length [three_stops]
   \<and> has_range ([three_stops] ! 0) \<and> has_copy ([three_stops] ! 0)
   \<and> apply_fn ([three_stops] ! 0) (domain_setter ([three_stops] ! 0) [Num 1, Num 2])
        (range_setter ([three_stops] ! 0) [Num 1, Num 2]) (Num (3 / 2)) \<noteq> Num 1
   \<and> invert_fn ([three_stops] ! 0) = Some linear_invert
   \<and> fst (checkType 0 [three_stops]) = Inr ''linear''"
  using checkType_labels [of 0 "[three_stops]"]
  by (simp add: three_stops_def scaleLinear_def linear_apply_def linear_invert_def piecewise_def
      bimap_def nth_js_def normalise_def interpolate_number_def Let_def)

text \<open>
  Claim C6. The probe works on a copy: for every scale with a \<open>copy\<close> method,
  \<open>checkType\<close>, \<open>scaleIsOrdinal\<close> and \<open>makeAxisScale\<close> leave the domain and the
  range of the given scale as they were.
\<close>

theorem probing_leaves_scale:
  assumes "scale < length st" and "has_copy (st ! scale)"
  shows "scale_domain (snd (checkType scale st) ! scale) = scale_domain (st ! scale)
       \<and> scale_range (snd (checkType scale st) ! scale) = scale_range (st ! scale)
       \<and> scale_domain (snd (scaleIsOrdinal scale st) ! scale) = scale_domain (st ! scale)
       \<and> scale_range (snd (scaleIsOrdinal scale st) ! scale) = scale_range (st ! scale)
       \<and> scale_domain (snd (makeAxisScale scale extent st) ! scale) = scale_domain (st ! scale)
       \<and> scale_range (snd (makeAxisScale scale extent st) ! scale) = scale_range (st ! scale)"
proof -
  have a: "snd (checkType scale st) ! scale = st ! scale"
    using assms(1) checkType_frame [of st scale] by (metis nth_take)
  have b: "snd (scaleIsOrdinal scale st) ! scale = st ! scale"
    using a by (simp add: scaleIsOrdinal_store)
  have c: "snd (makeAxisScale scale extent st) ! scale = st ! scale"
    using assms(1) makeAxisScale_frame [of st scale extent] by (metis nth_take)
  show ?thesis by (simp add: a b c)
qed

text \<open>The claim at the linear colour scale with three stops.\<close>

theorem probing_leaves_scale_witness:
  "0 < length [three_stops] \<and> has_copy ([three_stops] ! 0)
   \<and> scale_domain (snd (checkType 0 [three_stops]) ! 0) = scale_domain ([three_stops] ! 0)
   \<and> scale_range (snd (checkType 0 [three_stops]) ! 0) = scale_range ([three_stops] ! 0)
   \<and> scale_domain (snd (scaleIsOrdinal 0 [three_stops]) ! 0) = scale_domain ([three_stops] ! 0)
   \<and> scale_range (snd (scaleIsOrdinal 0 [three_stops]) ! 0) = scale_range ([three_stops] ! 0)
   \<and> scale_domain (snd (makeAxisScale 0 [Num 0, Num 10] [three_stops]) ! 0)
       = scale_domain ([three_stops] ! 0)
   \<and> scale_range (snd (makeAxisScale 0 [Num 0, Num 10] [three_stops]) ! 0)
       = scale_range ([three_stops] ! 0)"
  using probing_leaves_scale [of 0 "[three_stops]" "[Num 0, Num 10]"]
  by (simp add: three_stops_def scaleLinear_def)

subsection \<open>The linear scale is exact at its knots\<close>




lemma interpolate_number_Num [simp]:
  "interpolate_number (Num a) (Num b) (Some t) = Num (a * (1 - t) + b * t)"
  by (simp add: interpolate_number_def)

lemma normalise_Num [simp]:
  "normalise (Num a) (Num b) (Some x) = Some (if b - a \<noteq> 0 then (x - a) / (b - a) else 1 / 2)"
  by (simp add: normalise_def)












text \<open>
  A scale that has \<open>range\<close> and \<open>copy\<close> but no \<open>invert\<close>, and is not ordinal, never
  reaches the branch of \<open>makeAxisScale\<close> that substitutes a linear scale: the
  classification calls \<open>invert\<close> and throws first.
\<close>

lemma makeAxisScale_without_invert:
  assumes "scale < length st" and "has_range (st ! scale)" and "has_copy (st ! scale)"
    and "invert_fn (st ! scale) = None"
    and "apply_fn (st ! scale) (domain_setter (st ! scale) [Num 1, Num 2])
           (range_setter (st ! scale) [Num 1, Num 2]) (Num (3 / 2)) \<noteq> Num 1"
  shows "fst (makeAxisScale scale extent st) = Inl TypeError"
  using assms
  by (simp add: makeAxisScale_def scaleIsOrdinal_def checkType_def alloc_def Let_def probe_alloc
      call_def invert_def probed_def)






section \<open>Properties of the renderers\<close>

subsection \<open>Selecting, pruning and joining\<close>

lemma descendants_children: "descendants e = concat (map (\<lambda>c. c # descendants c) (children e))"
  by (cases e) simp

lemma matching_Nil [simp]: "matching sel [] = []"
  by (simp add: matching_def)

lemma matching_Cons:
  "matching sel (c # cs) = (if matches sel c then [c] else []) @ select_all sel c @ matching sel cs"
  by (simp add: matching_def select_all_def descendants_children [of c])

lemma matching_append: "matching sel (xs @ ys) = matching sel xs @ matching sel ys"
  by (simp add: matching_def)

lemma class_list_root: "class_list (Element t a d ks) = class_list (Element t a d' ks')"
  by (simp add: class_list_def get_attr_def)

lemma matches_root:
  "matches sel (Element t a d ks) = matches sel (Element t a d' ks')"
  using class_list_root [of t a d ks d' ks'] by (cases sel) (simp split: option.splits)

lemma select_all_Element [simp]: "select_all sel (Element t a d ks) = matching sel ks"
  by (simp add: select_all_def)

lemma select_all_set_children [simp]: "select_all sel (set_children cs e) = matching sel cs"
  by (simp add: select_all_def set_children_def)

lemma children_set_children [simp]: "children (set_children cs e) = cs"
  by (simp add: set_children_def)

lemma datum_set_children [simp]: "datum (set_children cs e) = datum e"
  by (simp add: set_children_def)

lemma set_children_twice [simp]: "set_children cs (set_children cs' e) = set_children cs e"
  by (simp add: set_children_def)




lemma tag_attr [simp]: "tag (attr m v e) = tag e"
  by (cases v) (simp_all add: attr_def set_attr_def remove_attr_def)

lemma datum_attr [simp]: "datum (attr m v e) = datum e"
  by (cases v) (simp_all add: attr_def set_attr_def remove_attr_def)

lemma children_attr [simp]: "children (attr m v e) = children e"
  by (cases v) (simp_all add: attr_def set_attr_def remove_attr_def)

lemma attr_color_props [simp]:
  "tag (attr_color m c e) = tag e" "datum (attr_color m c e) = datum e"
  "children (attr_color m c e) = children e"
  by (cases c; simp add: attr_color_def)+


declare matches.simps [simp del]

lemma matching_empty_iff:
  "matching sel cs = [] \<longleftrightarrow> (\<forall>c \<in> set cs. \<not> matches sel c \<and> select_all sel c = [])"
  by (induction cs) (auto simp: matching_Cons)

lemma matches_prune [simp]: "matches sel (prune sel' c) = matches sel c"
proof (cases c)
  case (Element t a d ks)
  then show ?thesis
    using matches_root [of sel t a d "map (prune sel') (filter (\<lambda>c. \<not> matches sel' c) ks)" d ks]
    by simp
qed

lemma children_prune: "children (prune sel e) = prune_list sel (children e)"
  by (cases e) (simp add: prune_list_def)

lemma select_all_prune: "select_all sel (prune sel e) = []"
proof (induction e)
  case (Element t a d ks)
  then show ?case
    by (simp add: matching_empty_iff)
qed

lemma matching_prune_list: "matching sel (prune_list sel cs) = []"
  by (simp add: prune_list_def matching_empty_iff select_all_prune)

lemma prune_absent: "select_all sel e = [] \<Longrightarrow> prune sel e = e"
proof (induction e)
  case (Element t a d ks)
  then have all: "\<forall>c \<in> set ks. \<not> matches sel c \<and> select_all sel c = []"
    by (simp add: matching_empty_iff)
  then have "filter (\<lambda>c. \<not> matches sel c) ks = ks" by (simp add: filter_id_conv)
  moreover have "map (prune sel) ks = ks" using all Element.IH by (simp add: map_idI)
  ultimately show ?case by simp
qed

lemma prune_list_absent: "matching sel cs = [] \<Longrightarrow> prune_list sel cs = cs"
proof -
  assume "matching sel cs = []"
  then have all: "\<forall>c \<in> set cs. \<not> matches sel c \<and> select_all sel c = []"
    by (simp add: matching_empty_iff)
  then have "filter (\<lambda>c. \<not> matches sel c) cs = cs" by (simp add: filter_id_conv)
  moreover have "map (prune sel) cs = cs" using all by (simp add: map_idI prune_absent)
  ultimately show ?thesis by (simp add: prune_list_def)
qed

lemma select_all_prune_other: "select_all q e = [] \<Longrightarrow> select_all q (prune sel e) = []"
proof (induction e)
  case (Element t a d ks)
  then show ?case by (simp add: matching_empty_iff)
qed

lemma matching_prune_list_other: "matching q cs = [] \<Longrightarrow> matching q (prune_list sel cs) = []"
  by (simp add: prune_list_def matching_empty_iff select_all_prune_other)

lemma set_children_same [simp]: "set_children (children e) e = e"
  by (cases e) (simp add: set_children_def)

lemma set_datum_same: "datum e = d \<Longrightarrow> set_datum d e = e"
  by (cases e) (auto simp: set_datum_def)

lemma matches_set_datum [simp]: "matches sel (set_datum d e) = matches sel e"
  by (cases e) (simp add: set_datum_def, rule matches_root)

lemma matches_set_children [simp]: "matches sel (set_children cs e) = matches sel e"
  by (cases e) (simp add: set_children_def, rule matches_root)

lemma select_all_set_datum [simp]: "select_all sel (set_datum d e) = select_all sel e"
  by (simp add: select_all_def set_datum_def)

lemma children_set_datum [simp]: "children (set_datum d e) = children e"
  by (simp add: set_datum_def)

lemma datum_set_datum [simp]: "datum (set_datum d e) = d"
  by (simp add: set_datum_def)

lemma new_checker_pattern_eq:
  "new_checker_pattern svgIDs
     = (the_pattern svgIDs, snd (generateSvgID (Some ''checkerPattern'') svgIDs))"
  by (simp add: the_pattern_def new_checker_pattern_def split: prod.splits)

lemma the_pattern_props:
  "matches (Selector ''pattern'' (Some ''checkerPattern'')) (the_pattern t)"
  "\<not> matches (Selector ''defs'' None) (the_pattern t)"
  "select_all (Selector ''pattern'' (Some ''checkerPattern'')) (the_pattern t) = []"
  "select_all (Selector ''defs'' None) (the_pattern t) = []"
  "get_attr ''id'' (the_pattern t) = Some (fst (generateSvgID (Some ''checkerPattern'') t))"
  "datum (the_pattern t) = None"
  by (simp_all add: the_pattern_def new_checker_pattern_def matches.simps class_list_def
      get_attr_def is_space_def matching_Cons split: prod.splits)

lemma class_list_set_datum [simp]: "class_list (set_datum d e) = class_list e"
  by (simp add: class_list_def get_attr_def set_datum_def)

lemma tag_set_datum [simp]: "tag (set_datum d e) = tag e"
  by (simp add: set_datum_def)

lemma update_first_None_iff:
  "update_first sel upd cs s = None \<longleftrightarrow> matching sel cs = []"
proof (induction sel upd cs s rule: update_first.induct)
  case (1 sel upd s)
  then show ?case by simp
next
  case (2 sel upd t a d ks cs s)
  show ?case
  proof (cases "matches sel (Element t a d ks)")
    case True
    then show ?thesis by (simp add: matching_Cons split: prod.splits)
  next
    case False
    with 2 show ?thesis
      by (auto simp: matching_Cons split: option.splits prod.splits)
  qed
qed

lemma merged_join_enter:
  assumes "select_all sel parent = []"
  shows "merged_join sel d enter update parent s =
     (let (e, s1) = enter s; (e', s2) = update (set_datum d e) s1
      in (set_children (children parent @ [e']) parent, s2))"
  using assms update_first_None_iff [of sel "\<lambda>e. update (set_datum d e)" "children parent" s]
  by (simp add: merged_join_def select_all_def)

lemma keep_first_None_iff: "keep_first sel d cs = None \<longleftrightarrow> matching sel cs = []"
proof (induction sel d cs rule: keep_first.induct)
  case (1 sel d)
  then show ?case by simp
next
  case (2 sel d t a d0 ks cs)
  show ?case
  proof (cases "matches sel (Element t a d0 ks)")
    case True
    then show ?thesis by (simp add: matching_Cons)
  next
    case False
    with 2 show ?thesis
      by (auto simp: matching_Cons split: option.splits)
  qed
qed

lemma keep_first_stable:
  "matching sel cs = [e] \<Longrightarrow> datum e = d \<Longrightarrow> keep_first sel d cs = Some cs"
proof (induction sel d cs rule: keep_first.induct)
  case (1 sel d)
  then show ?case by simp
next
  case (2 sel d t a d0 ks cs)
  let ?c = "Element t a d0 ks"
  show ?case
  proof (cases "matches sel ?c")
    case True
    with "2.prems"(1) have c: "e = ?c" and none: "matching sel ks = []" "matching sel cs = []"
      by (simp_all add: matching_Cons)
    from none have "prune sel ?c = ?c" "prune_list sel cs = cs"
      using prune_absent [of sel ?c] by (simp_all add: prune_list_absent)
    moreover have "set_datum d ?c = ?c" using "2.prems"(2) c by (simp add: set_datum_def)
    ultimately show ?thesis using True by simp
  next
    case False
    with "2.prems"(1) have split: "matching sel ks @ matching sel cs = [e]"
      by (simp add: matching_Cons)
    show ?thesis
    proof (cases "matching sel ks = []")
      case True
      with split have cs: "matching sel cs = [e]" by simp
      from True have "keep_first sel d ks = None" by (simp add: keep_first_None_iff)
      moreover from "2.IH"(2) [OF False this cs "2.prems"(2)]
      have "keep_first sel d cs = Some cs" .
      ultimately show ?thesis using False by simp
    next
      case ne: False
      with split have ks: "matching sel ks = [e]" and cs: "matching sel cs = []"
        by (simp_all add: append_eq_Cons_conv)
      from "2.IH"(1) [OF False ks "2.prems"(2)] have "keep_first sel d ks = Some ks" .
      with False cs show ?thesis by (simp add: prune_list_absent)
    qed
  qed
qed

text \<open>What \<open>update_first\<close> does: the first match, and nothing else, is replaced by its
  update, so that the number of elements that match any selector changes as it does
  for that element.\<close>

lemma update_first_result:
  assumes "update_first sel u cs s = Some (cs1, s1)"
  shows "\<exists>x x1. matching sel cs \<noteq> [] \<and> hd (matching sel cs) = x \<and> u x s = (x1, s1)
           \<and> (matches sel x1 \<longrightarrow> matching sel cs1 \<noteq> [] \<and> hd (matching sel cs1) = x1)
           \<and> (\<forall>q. length (matching q cs1) + length (matching q [x])
                  = length (matching q cs) + length (matching q [x1]))"
  using assms
proof (induction sel u cs s arbitrary: cs1 rule: update_first.induct)
  case (1 sel upd s)
  then show ?case by simp
next
  case (2 sel upd t a d ks cs s)
  let ?c = "Element t a d ks"
  show ?case
  proof (cases "matches sel ?c")
    case True
    obtain x1 where u: "upd ?c s = (x1, s1)" and cs1: "cs1 = x1 # cs"
      using "2.prems"(1) True by (auto split: prod.splits)
    have "\<forall>q. length (matching q cs1) + length (matching q [?c])
             = length (matching q (?c # cs)) + length (matching q [x1])"
      by (simp add: cs1 matching_Cons [of _ x1 cs] matching_Cons [of _ ?c cs]
          matching_Cons [of _ x1 "[]"] matching_Cons [of _ ?c "[]"])
    moreover have "matching sel (?c # cs) \<noteq> []" "hd (matching sel (?c # cs)) = ?c"
      using True by (simp_all add: matching_Cons [of _ ?c cs])
    moreover have "matches sel x1 \<longrightarrow> matching sel cs1 \<noteq> [] \<and> hd (matching sel cs1) = x1"
      by (simp add: cs1 matching_Cons [of _ x1 cs])
    ultimately show ?thesis using u by blast
  next
    case False
    show ?thesis
    proof (cases "update_first sel upd ks s")
      case (Some r)
      obtain ks' where r: "update_first sel upd ks s = Some (ks', s1)"
        and cs1: "cs1 = Element t a d ks' # cs"
        using "2.prems"(1) False Some by (auto split: prod.splits)
      from "2.IH"(1) [OF False r]
      obtain x x1 where x: "matching sel ks \<noteq> []" "hd (matching sel ks) = x" "upd x s = (x1, s1)"
        "matches sel x1 \<longrightarrow> matching sel ks' \<noteq> [] \<and> hd (matching sel ks') = x1"
        and n: "\<forall>q. length (matching q ks') + length (matching q [x])
                  = length (matching q ks) + length (matching q [x1])"
        by blast
      have root: "matches q (Element t a d ks') = matches q ?c" for q
        by (rule matches_root)
      have "matching sel (?c # cs) \<noteq> []" "hd (matching sel (?c # cs)) = x"
        using False x(1,2) by (simp_all add: matching_Cons [of _ ?c cs])
      moreover have "matches sel x1 \<longrightarrow> matching sel cs1 \<noteq> [] \<and> hd (matching sel cs1) = x1"
        using False x(4) root [of sel] by (simp add: cs1 matching_Cons [of _ "Element t a d ks'" cs])
      moreover have "\<forall>q. length (matching q cs1) + length (matching q [x])
             = length (matching q (?c # cs)) + length (matching q [x1])"
        using n root
        by (simp add: cs1 matching_Cons [of _ "Element t a d ks'" cs] matching_Cons [of _ ?c cs])
      ultimately show ?thesis using x(3) by blast
    next
      case None
      obtain cs' where r: "update_first sel upd cs s = Some (cs', s1)" and cs1: "cs1 = ?c # cs'"
        using "2.prems"(1) False None by (auto split: option.splits prod.splits)
      from None have nks: "matching sel ks = []" by (simp add: update_first_None_iff)
      from "2.IH"(2) [OF False None r]
      obtain x x1 where x: "matching sel cs \<noteq> []" "hd (matching sel cs) = x" "upd x s = (x1, s1)"
        "matches sel x1 \<longrightarrow> matching sel cs' \<noteq> [] \<and> hd (matching sel cs') = x1"
        and n: "\<forall>q. length (matching q cs') + length (matching q [x])
                  = length (matching q cs) + length (matching q [x1])"
        by blast
      have "matching sel (?c # cs) \<noteq> []" "hd (matching sel (?c # cs)) = x"
        using False nks x(1,2) by (simp_all add: matching_Cons [of _ ?c cs])
      moreover have "matches sel x1 \<longrightarrow> matching sel cs1 \<noteq> [] \<and> hd (matching sel cs1) = x1"
        using False nks x(4) by (simp add: cs1 matching_Cons [of _ ?c cs'])
      moreover have "\<forall>q. length (matching q cs1) + length (matching q [x])
             = length (matching q (?c # cs)) + length (matching q [x1])"
        using n by (simp add: cs1 matching_Cons [of _ ?c cs'] matching_Cons [of _ ?c cs])
      ultimately show ?thesis using x(3) by blast
    qed
  qed
qed

lemma update_first_stable:
  "matching sel cs \<noteq> [] \<Longrightarrow> u (hd (matching sel cs)) s = (hd (matching sel cs), s')
     \<Longrightarrow> update_first sel u cs s = Some (cs, s')"
proof (induction sel u cs s rule: update_first.induct)
  case (1 sel upd s)
  then show ?case by simp
next
  case (2 sel upd t a d ks cs s)
  let ?c = "Element t a d ks"
  show ?case
  proof (cases "matches sel ?c")
    case True
    with "2.prems" show ?thesis by (simp add: matching_Cons [of _ ?c cs])
  next
    case False
    show ?thesis
    proof (cases "matching sel ks = []")
      case True
      then have n: "update_first sel upd ks s = None" by (simp add: update_first_None_iff)
      from True False "2.prems" have "matching sel cs \<noteq> []"
        "upd (hd (matching sel cs)) s = (hd (matching sel cs), s')"
        by (simp_all add: matching_Cons [of _ ?c cs])
      from "2.IH"(2) [OF False n this] n False show ?thesis by simp
    next
      case ne: False
      with False "2.prems" have "upd (hd (matching sel ks)) s = (hd (matching sel ks), s')"
        by (simp add: matching_Cons [of _ ?c cs])
      from "2.IH"(1) [OF False ne this] False show ?thesis by simp
    qed
  qed
qed

lemma matching_matches: "e \<in> set (matching sel cs) \<Longrightarrow> matches sel e"
  by (simp add: matching_def)

lemma hd_matching_matches: "matching sel cs \<noteq> [] \<Longrightarrow> matches sel (hd (matching sel cs))"
  using matching_matches [of "hd (matching sel cs)" sel cs] by simp

lemma defs_is_no_pattern:
  "matches (Selector ''defs'' None) e \<Longrightarrow> \<not> matches (Selector ''pattern'' c) e"
  by (simp add: matches.simps)

lemma pattern_join_fresh:
  fixes x :: "'d element"
  assumes "select_all (Selector ''pattern'' (Some ''checkerPattern'')) x = []"
  shows "pattern_join (set_datum None x) t
         = (set_children (children x @ [the_pattern t]) (set_datum None x),
            snd (generateSvgID (Some ''checkerPattern'') t))"
  using assms keep_first_None_iff [of "Selector ''pattern'' (Some ''checkerPattern'')" None "children x"]
  by (simp add: pattern_join_def new_checker_pattern_eq select_all_def)

lemma pattern_join_again:
  fixes x :: "'d element"
  assumes "select_all (Selector ''pattern'' (Some ''checkerPattern'')) x = []"
  shows "pattern_join (set_children (children x @ [the_pattern t]) (set_datum None x)) t'
         = (set_children (children x @ [the_pattern t]) (set_datum None x), t')"
proof -
  let ?Qp = "Selector ''pattern'' (Some ''checkerPattern'')"
  let ?e1 = "set_children (children x @ [the_pattern t]) (set_datum None x)"
  have tp: "matches ?Qp (the_pattern t :: 'd element)"
    "select_all ?Qp (the_pattern t :: 'd element) = []"
    by (rule the_pattern_props)+
  have m: "matching ?Qp (children ?e1) = [the_pattern t :: 'd element]"
    using assms tp by (simp add: matching_append matching_Cons select_all_def [of _ x])
  have "keep_first ?Qp None (children ?e1) = Some (children ?e1)"
    by (rule keep_first_stable [OF m]) (simp add: the_pattern_props)
  then show ?thesis
    by (simp add: pattern_join_def)
qed

text \<open>The first call on an \<open>svg\<close> without checker pattern: the \<open>defs\<close> that the join
  binds is \<open>x\<close> with the new pattern as its last child.\<close>

lemma ensureCheckerPattern_structure:
  fixes selection :: "'d element"
  assumes none: "no_checker_pattern selection"
  shows "\<exists>x svg. select_all (Selector ''pattern'' (Some ''checkerPattern'')) x = []
           \<and> merged_join (Selector ''defs'' None) None (Pair (Element ''defs'' [] None []))
                 pattern_join selection t
               = (svg, snd (generateSvgID (Some ''checkerPattern'') t))
           \<and> select_all (Selector ''defs'' None) svg \<noteq> []
           \<and> hd (select_all (Selector ''defs'' None) svg)
               = set_children (children x @ [the_pattern t]) (set_datum None x)
           \<and> length (select_all (Selector ''pattern'' (Some ''checkerPattern'')) svg)
               = length (select_all (Selector ''pattern'' (Some ''checkerPattern'')) selection) + 1"
proof -
  let ?Qd = "Selector ''defs'' None"
  let ?Qp = "Selector ''pattern'' (Some ''checkerPattern'')"
  let ?u = "\<lambda>e :: 'd element. pattern_join (set_datum None e)"
  let ?t1 = "snd (generateSvgID (Some ''checkerPattern'') t)"
  let ?e1 = "\<lambda>x :: 'd element. set_children (children x @ [the_pattern t]) (set_datum None x)"
  have tp: "matches ?Qp (the_pattern t :: 'd element)"
    "select_all ?Qp (the_pattern t :: 'd element) = []"
    "\<not> matches ?Qd (the_pattern t :: 'd element)"
    "select_all ?Qd (the_pattern t :: 'd element) = []"
    by (rule the_pattern_props)+
  have e1_pat: "matching ?Qp [?e1 x] = [the_pattern t]"
    if "matches ?Qd x" "select_all ?Qp x = []" for x
    using that tp defs_is_no_pattern [of x]
    by (simp add: matching_append matching_Cons [of _ "?e1 x"] matching_Cons [of _ "the_pattern t"]
        select_all_def [of _ x])
  show ?thesis
  proof (cases "update_first ?Qd ?u (children selection) t")
    case None
    then have nd: "select_all ?Qd selection = []"
      by (simp add: update_first_None_iff select_all_def)
    let ?x = "Element ''defs'' [] (None :: 'd option) []"
    have x: "select_all ?Qp ?x = []" "matches ?Qd ?x" "select_all ?Qd ?x = []"
      by (simp_all add: matches.simps)
    have j: "merged_join ?Qd None (Pair ?x) pattern_join selection t
               = (set_children (children selection @ [?e1 ?x]) selection, ?t1)"
      using nd pattern_join_fresh [OF x(1), of t] by (simp add: merged_join_enter)
    let ?svg = "set_children (children selection @ [?e1 ?x]) selection"
    have "select_all ?Qd ?svg = ?e1 ?x # select_all ?Qd (?e1 ?x)"
      using nd x(2)
      by (simp add: matching_append matching_Cons select_all_def [of _ selection])
    then have a: "select_all ?Qd ?svg \<noteq> []" and b: "hd (select_all ?Qd ?svg) = ?e1 ?x"
      by simp_all
    have c: "length (select_all ?Qp ?svg) = length (select_all ?Qp selection) + 1"
      using e1_pat [OF x(2,1)] by (simp add: matching_append select_all_def [of _ selection])
    from x(1) j a b c show ?thesis by blast
  next
    case (Some r)
    obtain cs1 s1 where r: "update_first ?Qd ?u (children selection) t = Some (cs1, s1)"
      using Some by (cases r) simp
    from update_first_result [OF r]
    obtain x x1 where ne: "matching ?Qd (children selection) \<noteq> []"
      and x: "hd (matching ?Qd (children selection)) = x" and u: "?u x t = (x1, s1)"
      and h: "matches ?Qd x1 \<longrightarrow> matching ?Qd cs1 \<noteq> [] \<and> hd (matching ?Qd cs1) = x1"
      and n: "\<forall>q. length (matching q cs1) + length (matching q [x])
                = length (matching q (children selection)) + length (matching q [x1])"
      by blast
    from ne x have xd: "matches ?Qd x" using hd_matching_matches by blast
    from none ne x have xp: "select_all ?Qp x = []"
      by (cases "matching ?Qd (children selection)")
         (simp_all add: no_checker_pattern_def select_all_def [of _ selection])
    from u xp have x1: "x1 = ?e1 x" and s1: "s1 = ?t1" by (simp_all add: pattern_join_fresh)
    have j: "merged_join ?Qd None (Pair (Element ''defs'' [] None [])) pattern_join selection t
               = (set_children cs1 selection, ?t1)"
      using r s1 by (simp add: merged_join_def)
    from h xd have hd1: "matching ?Qd cs1 \<noteq> []" "hd (matching ?Qd cs1) = ?e1 x"
      by (simp_all add: x1)
    have "matching ?Qp [x] = []"
      using xp xd defs_is_no_pattern [of x] by (simp add: matching_Cons)
    with n [rule_format, of ?Qp] e1_pat [OF xd xp]
    have "length (matching ?Qp cs1) = length (matching ?Qp (children selection)) + 1"
      by (simp add: x1)
    then have c: "length (select_all ?Qp (set_children cs1 selection))
                    = length (select_all ?Qp selection) + 1"
      by (simp add: select_all_def [of _ selection])
    have a: "select_all ?Qd (set_children cs1 selection) \<noteq> []"
      and b: "hd (select_all ?Qd (set_children cs1 selection)) = ?e1 x"
      using hd1 by simp_all
    from xp j a b c show ?thesis by blast
  qed
qed

text \<open>
  Claim C10. On an \<open>svg\<close> without checker pattern, the first call of
  \<open>ensureCheckerPattern\<close> returns the id that \<open>generateSvgID('checkerPattern')\<close>
  generates and advances the id table by that one call; the document has one
  \<open>pattern.checkerPattern\<close> more than before, and the new pattern is the only one of
  the \<open>defs\<close> that the join binds. Every call on the resulting document, whatever the
  id table holds by then, returns the same id and leaves the document and the id table
  as they are.
\<close>

theorem ensureCheckerPattern_idempotent:
  fixes selection :: "'d element"
  assumes none: "no_checker_pattern selection"
  shows "fst (ensureCheckerPattern selection svgIDs)
           = Some (fst (generateSvgID (Some ''checkerPattern'') svgIDs))
       \<and> snd (snd (ensureCheckerPattern selection svgIDs))
           = snd (generateSvgID (Some ''checkerPattern'') svgIDs)
       \<and> length (select_all (Selector ''pattern'' (Some ''checkerPattern''))
                   (fst (snd (ensureCheckerPattern selection svgIDs))))
           = length (select_all (Selector ''pattern'' (Some ''checkerPattern'')) selection) + 1
       \<and> map (select_all (Selector ''pattern'' (Some ''checkerPattern'')))
            (take 1 (select_all (Selector ''defs'' None)
                       (fst (snd (ensureCheckerPattern selection svgIDs)))))
           = [[the_pattern svgIDs]]
       \<and> (\<forall>svgIDs'. ensureCheckerPattern (fst (snd (ensureCheckerPattern selection svgIDs))) svgIDs'
             = (fst (ensureCheckerPattern selection svgIDs),
                fst (snd (ensureCheckerPattern selection svgIDs)), svgIDs'))"
proof -
  let ?Qd = "Selector ''defs'' None"
  let ?Qp = "Selector ''pattern'' (Some ''checkerPattern'')"
  let ?id = "fst (generateSvgID (Some ''checkerPattern'') svgIDs)"
  from ensureCheckerPattern_structure [OF none, of svgIDs]
  obtain x svg where x: "select_all ?Qp x = []"
    and j: "merged_join ?Qd None (Pair (Element ''defs'' [] None [])) pattern_join selection svgIDs
              = (svg, snd (generateSvgID (Some ''checkerPattern'') svgIDs))"
    and dne: "select_all ?Qd svg \<noteq> []"
    and d: "hd (select_all ?Qd svg)
              = set_children (children x @ [the_pattern svgIDs]) (set_datum None x)"
    and p: "length (select_all ?Qp svg) = length (select_all ?Qp selection) + 1"
    by blast
  let ?e1 = "set_children (children x @ [the_pattern svgIDs]) (set_datum None x)"
  obtain ds where dl: "select_all ?Qd svg = ?e1 # ds"
    using dne d by (cases "select_all ?Qd svg") simp_all
  have tp: "matches ?Qp (the_pattern svgIDs :: 'd element)"
    "select_all ?Qp (the_pattern svgIDs :: 'd element) = []"
    by (rule the_pattern_props)+
  have pe1: "matching ?Qp (children x @ [the_pattern svgIDs]) = [the_pattern svgIDs]"
    using x tp by (simp add: matching_append matching_Cons select_all_def [of _ x])
  have first: "ensureCheckerPattern selection svgIDs
                 = (Some ?id, svg, snd (generateSvgID (Some ''checkerPattern'') svgIDs))"
    by (simp add: ensureCheckerPattern_def j dl pe1 first_attr_def the_pattern_props)
  have again: "ensureCheckerPattern svg t' = (Some ?id, svg, t')" for t'
  proof -
    have "update_first ?Qd (\<lambda>e. pattern_join (set_datum None e)) (children svg) t'
            = Some (children svg, t')"
    proof (rule update_first_stable)
      show "matching ?Qd (children svg) \<noteq> []" using dne by (simp add: select_all_def)
      show "pattern_join (set_datum None (hd (matching ?Qd (children svg)))) t'
              = (hd (matching ?Qd (children svg)), t')"
        using pattern_join_again [OF x, of svgIDs t'] d
        by (simp add: set_datum_same select_all_def [of _ svg])
    qed
    then have "merged_join ?Qd None (Pair (Element ''defs'' [] None [])) pattern_join svg t'
                 = (svg, t')"
      by (simp add: merged_join_def)
    then show ?thesis
      by (simp add: ensureCheckerPattern_def dl pe1 first_attr_def the_pattern_props)
  qed
  show ?thesis by (simp add: first again p dl pe1)
qed

text \<open>The claim on an \<open>svg\<close> that already has two \<open>defs\<close> elements: the id is
  \<open>checkerPattern-1\<close>.\<close>

theorem ensureCheckerPattern_idempotent_witness:
  "no_checker_pattern svg_with_gradient
   \<and> fst (ensureCheckerPattern svg_with_gradient Map.empty) = Some ''checkerPattern-1''
   \<and> snd (snd (ensureCheckerPattern svg_with_gradient Map.empty))
       = snd (generateSvgID (Some ''checkerPattern'') Map.empty)
   \<and> length (select_all (Selector ''pattern'' (Some ''checkerPattern''))
               (fst (snd (ensureCheckerPattern svg_with_gradient Map.empty))))
       = length (select_all (Selector ''pattern'' (Some ''checkerPattern'')) svg_with_gradient) + 1
   \<and> map (select_all (Selector ''pattern'' (Some ''checkerPattern'')))
        (take 1 (select_all (Selector ''defs'' None)
                   (fst (snd (ensureCheckerPattern svg_with_gradient Map.empty)))))
       = [[the_pattern Map.empty]]
   \<and> (\<forall>svgIDs'. ensureCheckerPattern
                    (fst (snd (ensureCheckerPattern svg_with_gradient Map.empty))) svgIDs'
         = (fst (ensureCheckerPattern svg_with_gradient Map.empty),
            fst (snd (ensureCheckerPattern svg_with_gradient Map.empty)), svgIDs'))"
proof -
  have h: "no_checker_pattern svg_with_gradient"
    by (simp add: no_checker_pattern_def svg_with_gradient_def matching_Cons matches.simps)
  have i: "fst (generateSvgID (Some ''checkerPattern'') Map.empty) = ''checkerPattern-1''"
    by (simp add: generateSvgID_def get_prop_def set_prop_def object_prototype_functions_def
        number_to_string.simps digit_char_def)
  from ensureCheckerPattern_idempotent [OF h, of Map.empty] h i show ?thesis by simp
qed

text \<open>In that document the pattern goes into the first \<open>defs\<close>; the second \<open>defs\<close>
  and its gradient stay.\<close>

lemma ensureCheckerPattern_keeps_other_defs:
  "fst (snd (ensureCheckerPattern svg_with_gradient Map.empty))
     = Element ''svg'' [] None
         [Element ''defs'' [(''id'', ''first'')] None [the_pattern Map.empty],
          Element ''g'' [(''class'', ''colorbar'')] None [],
          Element ''defs'' [(''id'', ''second'')] None
            [Element ''linearGradient'' [(''id'', ''gradient-1'')] None []]]"
  by (simp add: ensureCheckerPattern_def merged_join_def svg_with_gradient_def matches.simps
      pattern_join_def set_datum_def set_children_def new_checker_pattern_eq split: prod.splits)

subsection \<open>Rendering the handle\<close>





lemma datum_merged_join_pure [simp]:
  "datum (merged_join_pure sel d enter upd parent) = datum parent"
  by (simp add: merged_join_pure_def merged_join_def split: option.splits prod.splits)







lemma list_all2_take1_Nil: "list_all2 R xs ys \<Longrightarrow> take 1 xs = [] \<Longrightarrow> take 1 ys = []"
  by (cases xs; cases ys) auto









section \<open>What the test of the colorbar expects\<close>

text \<open>
  In the expected documents the rects of the vertical bar all have \<open>x = 0\<close> and the
  breadth as width and step down the \<open>y\<close> axis from 10 to 0; those of the horizontal
  bar all have \<open>y = 0\<close> and the breadth as height and step along \<open>x\<close> from 0 to 10.
  Each rect ends at or before 11, the length of the border, and all but the one at the
  far end are two units long at unit steps, so neighbours overlap by one unit.
\<close>

lemma expected_vertical_layout:
  "list_all (\<lambda>r. rect_x r = 0 \<and> rect_width r = 30) expected_vertical
   \<and> map rect_y expected_vertical = [10, 9, 8, 7, 6, 5, 4, 3, 2, 1, 0]
   \<and> list_all (\<lambda>r. rect_y r + rect_height r \<le> 11) expected_vertical
   \<and> map (\<lambda>r. rect_y r + rect_height r) expected_vertical
       = [11, 11, 10, 9, 8, 7, 6, 5, 4, 3, 2]"
  by (simp add: expected_vertical_def)

lemma expected_horizontal_layout:
  "list_all (\<lambda>r. rect_y r = 0 \<and> rect_height r = 8) expected_horizontal
   \<and> map rect_x expected_horizontal = [0, 1, 2, 3, 4, 5, 6, 7, 8, 9, 10]
   \<and> list_all (\<lambda>r. rect_x r + rect_width r \<le> 11) expected_horizontal
   \<and> map (\<lambda>r. rect_x r + rect_width r) expected_horizontal
       = [2, 3, 4, 5, 6, 7, 8, 9, 10, 11, 11]"
  by (simp add: expected_horizontal_def)

end
